theory Spec2Isabelle
  imports Main
begin

section \<open>Machine integers and coordinates\<close>

text \<open>
  \<^verbatim>\<open>SHORT\<close> is a signed 16-bit integer.  Coordinates are kept as \<^typ>\<open>int\<close>;
  every place where the source narrows an \<^verbatim>\<open>int\<close> expression to a \<^verbatim>\<open>short\<close>
  applies \<open>short_of\<close>, the wrap-around of the narrowing conversion.
\<close>

definition short_of :: "int \<Rightarrow> int" where
  "short_of i = (i + 32768) mod 65536 - 32768"

datatype error = INTSAFE_E_ARITHMETIC_OVERFLOW | E_INVALIDARG

text \<open>\<^verbatim>\<open>SizeTToShort\<close> and \<^verbatim>\<open>UIntToShort\<close> of the platform's intsafe header: the
  conversion succeeds when the unsigned operand is at most \<^verbatim>\<open>SHORT_MAX\<close>.  The
  argument of \<open>UIntToShort\<close> is the \<^verbatim>\<open>int\<close> the source passes; it is converted to
  the 32-bit unsigned parameter first.\<close>

definition SizeTToShort :: "nat \<Rightarrow> error + int" where
  "SizeTToShort n = (if n \<le> 32767 then Inr (int n) else Inl INTSAFE_E_ARITHMETIC_OVERFLOW)"

definition UIntToShort :: "int \<Rightarrow> error + int" where
  "UIntToShort i = (let u = i mod 4294967296 in
     if u \<le> 32767 then Inr u else Inl INTSAFE_E_ARITHMETIC_OVERFLOW)"

record COORD =
  X :: int
  Y :: int

record SMALL_RECT =
  srLeft :: int
  srTop :: int
  srRight :: int
  srBottom :: int

section \<open>Cells, attributes, rows\<close>

record TextAttribute =
  foreground :: nat
  background :: nat
  styleFlags :: nat
  hyperlinkId :: nat

record Cell =
  glyph :: char
  attr :: TextAttribute

text \<open>\<^verbatim>\<open>UNICODE_SPACE\<close> of unicode.hpp, the blank glyph.\<close>

definition UNICODE_SPACE :: char where
  "UNICODE_SPACE = CHR '' ''"

record ROW =
  cells :: "Cell list"
  wrapForced :: bool

datatype CursorType = Legacy | VerticalBar | Underscore | FullBox

record Cursor =
  position :: COORD
  isVisible :: bool
  blinkingAllowed :: bool
  isOn :: bool
  cursorType :: CursorType

text \<open>The text buffer: \<open>storage\<close> lists the rows in logical order (logical row 0
  first), every row as wide as the buffer.\<close>

record TextBuffer =
  storage :: "ROW list"
  cursor :: Cursor
  currentAttributes :: TextAttribute

section \<open>Viewport\<close>

text \<open>Modelled from the spec: the Viewport class, of which TerminalApi.cpp holds only
  callers.  Section 2 of the specification: a rectangle (origin + width/height)
  over the buffer's coordinate space that provides relative/absolute conversion,
  clamping, and directional walk iteration over a rectangular region.\<close>

record Viewport =
  origin :: COORD
  dimensions :: COORD

text \<open>Modelled from the spec: the accessors and constructors of Viewport (origin,
  dimensions, the four edges, exclusive and inclusive, the rectangle of an origin and
  dimensions or of exclusive edges, and the membership test), read off the rectangle.\<close>

definition Origin :: "Viewport \<Rightarrow> COORD" where
  "Origin v = origin v"

definition Dimensions :: "Viewport \<Rightarrow> COORD" where
  "Dimensions v = dimensions v"

definition Left :: "Viewport \<Rightarrow> int" where
  "Left v = X (origin v)"

definition Top :: "Viewport \<Rightarrow> int" where
  "Top v = Y (origin v)"

definition Width :: "Viewport \<Rightarrow> int" where
  "Width v = X (dimensions v)"

definition Height :: "Viewport \<Rightarrow> int" where
  "Height v = Y (dimensions v)"

definition RightExclusive :: "Viewport \<Rightarrow> int" where
  "RightExclusive v = Left v + Width v"

definition RightInclusive :: "Viewport \<Rightarrow> int" where
  "RightInclusive v = RightExclusive v - 1"

definition BottomExclusive :: "Viewport \<Rightarrow> int" where
  "BottomExclusive v = Top v + Height v"

definition BottomInclusive :: "Viewport \<Rightarrow> int" where
  "BottomInclusive v = BottomExclusive v - 1"

definition FromDimensions :: "COORD \<Rightarrow> COORD \<Rightarrow> Viewport" where
  "FromDimensions org dims = \<lparr>origin = org, dimensions = dims\<rparr>"

definition FromExclusive :: "SMALL_RECT \<Rightarrow> Viewport" where
  "FromExclusive sr =
     \<lparr>origin = \<lparr>X = srLeft sr, Y = srTop sr\<rparr>,
      dimensions = \<lparr>X = srRight sr - srLeft sr, Y = srBottom sr - srTop sr\<rparr>\<rparr>"

definition IsInBounds :: "Viewport \<Rightarrow> COORD \<Rightarrow> bool" where
  "IsInBounds v pos \<longleftrightarrow>
     Left v \<le> X pos \<and> X pos < RightExclusive v \<and> Top v \<le> Y pos \<and> Y pos < BottomExclusive v"

text \<open>Modelled from the spec: Viewport::Clamp, "clamps the result to the viewport's
  bounds" (section 4.1).\<close>

definition Clamp :: "Viewport \<Rightarrow> COORD \<Rightarrow> COORD" where
  "Clamp v pos =
     \<lparr>X = max (Left v) (min (RightInclusive v) (X pos)),
      Y = max (Top v) (min (BottomInclusive v) (Y pos))\<rparr>"

text \<open>Modelled from the spec: Viewport::ConvertToOrigin and Viewport::ConvertFromOrigin,
  the relative/absolute conversion: subtract, respectively add, the viewport origin.\<close>

definition ConvertToOrigin :: "Viewport \<Rightarrow> COORD \<Rightarrow> COORD" where
  "ConvertToOrigin v pos = \<lparr>X = short_of (X pos - Left v), Y = short_of (Y pos - Top v)\<rparr>"

definition ConvertFromOrigin :: "Viewport \<Rightarrow> COORD \<Rightarrow> COORD" where
  "ConvertFromOrigin v pos = \<lparr>X = short_of (X pos + Left v), Y = short_of (Y pos + Top v)\<rparr>"

datatype WalkDir = LeftToRight | RightToLeft

text \<open>Modelled from the spec: Viewport::DetermineWalkDirection, Viewport::GetWalkOrigin and
  Viewport::WalkInBounds.  Section 4.2: "if target lies to the right of (or overlaps
  forward into) source, walk right-to-left; otherwise walk left-to-right", with "a
  direction-aware iteration primitive over a 1-row rectangle".  A walk starts at the
  end of the rectangle the direction leaves from; a step moves one cell and reports
  whether the new position is still inside (the position is kept when it is not).\<close>

definition DetermineWalkDirection :: "Viewport \<Rightarrow> Viewport \<Rightarrow> WalkDir" where
  "DetermineWalkDirection source target =
     (if Left source < Left target then RightToLeft else LeftToRight)"

definition GetWalkOrigin :: "Viewport \<Rightarrow> WalkDir \<Rightarrow> COORD" where
  "GetWalkOrigin v dir =
     (case dir of
        LeftToRight \<Rightarrow> \<lparr>X = Left v, Y = Top v\<rparr>
      | RightToLeft \<Rightarrow> \<lparr>X = RightInclusive v, Y = Top v\<rparr>)"

definition WalkInBounds :: "Viewport \<Rightarrow> COORD \<Rightarrow> WalkDir \<Rightarrow> COORD option" where
  "WalkInBounds v pos dir =
     (let next = (case dir of
                    LeftToRight \<Rightarrow> pos\<lparr>X := X pos + 1\<rparr>
                  | RightToLeft \<Rightarrow> pos\<lparr>X := X pos - 1\<rparr>)
      in if IsInBounds v next then Some next else None)"

section \<open>Text buffer primitives\<close>

text \<open>Modelled from the spec: the cell-buffer collaborator of section 6 (indexed cell
  read, iterator-based write-at-position with a wrap-flag argument, row access by
  offset with reset-to-blank, circular-buffer increment, row-range rotation, the
  last-non-blank query bounded to a rectangle).  An output-cell iterator is the list of
  cells it yields.\<close>

text \<open>Modelled from the spec: TextBuffer::GetSize, the rectangle of the whole buffer.\<close>

definition GetSize :: "TextBuffer \<Rightarrow> Viewport" where
  "GetSize b =
     \<lparr>origin = \<lparr>X = 0, Y = 0\<rparr>,
      dimensions = \<lparr>X = (case storage b of [] \<Rightarrow> 0 | r # _ \<Rightarrow> int (length (cells r))),
                    Y = int (length (storage b))\<rparr>\<rparr>"

text \<open>Modelled from the spec: TextBuffer::GetCellDataAt, the indexed cell read; there is
  no cell to read outside the buffer.\<close>

definition GetCellDataAt :: "TextBuffer \<Rightarrow> COORD \<Rightarrow> Cell option" where
  "GetCellDataAt b pos =
     (if IsInBounds (GetSize b) pos
      then Some (cells (storage b ! nat (Y pos)) ! nat (X pos))
      else None)"

text \<open>Modelled from the spec: the OutputCellIterator of a glyph, an attribute and a
  count, which yields that many cells ("blank-fill step over zero cells (also a
  no-op)", section 4.2).\<close>

definition fillIterator :: "char \<Rightarrow> TextAttribute \<Rightarrow> nat \<Rightarrow> Cell list" where
  "fillIterator ch a n = replicate n \<lparr>glyph = ch, attr = a\<rparr>"

text \<open>Modelled from the spec: one row of a write, as many cells of the iterator as fit from column \<open>x\<close> on.
  When the run reaches the last column and a wrap value is given, the row's wrap flag
  is set to it.\<close>

definition WriteLine :: "ROW \<Rightarrow> Cell list \<Rightarrow> nat \<Rightarrow> bool option \<Rightarrow> ROW" where
  "WriteLine r it x wrap =
     (let w = length (cells r);
          k = min (length it) (w - x);
          r' = r\<lparr>cells := take x (cells r) @ take k it @ drop (x + k) (cells r)\<rparr>
      in if x + k = w then (case wrap of None \<Rightarrow> r' | Some f \<Rightarrow> r'\<lparr>wrapForced := f\<rparr>)
         else r')"

text \<open>Modelled from the spec: a run longer than the rest of its row goes on at column 0 of the next row, until
  the iterator or the buffer ends (which is why EraseCharacters bounds its run by the
  distance to the right edge).\<close>

fun WriteRows :: "ROW list \<Rightarrow> Cell list \<Rightarrow> nat \<Rightarrow> bool option \<Rightarrow> ROW list" where
  "WriteRows [] it x wrap = []"
| "WriteRows (r # rs) it x wrap =
     (if it = [] then r # rs
      else WriteLine r it x wrap # WriteRows rs (drop (length (cells r) - x) it) 0 wrap)"

text \<open>Modelled from the spec: TextBuffer::Write, the iterator-based write-at-position;
  a write whose target lies outside the buffer writes nothing.\<close>

definition Write :: "TextBuffer \<Rightarrow> Cell list \<Rightarrow> COORD \<Rightarrow> bool option \<Rightarrow> TextBuffer" where
  "Write b it target wrap =
     (if IsInBounds (GetSize b) target
      then b\<lparr>storage := take (nat (Y target)) (storage b)
                          @ WriteRows (drop (nat (Y target)) (storage b)) it (nat (X target)) wrap\<rparr>
      else b)"

text \<open>Modelled from the spec: ROW::Reset, "resetting a row to blank with a given
  attribute" (section 6).\<close>

definition Reset :: "ROW \<Rightarrow> TextAttribute \<Rightarrow> ROW" where
  "Reset r a =
     \<lparr>cells = replicate (length (cells r)) \<lparr>glyph = UNICODE_SPACE, attr = a\<rparr>,
      wrapForced = False\<rparr>"

text \<open>Modelled from the spec: \<^verbatim>\<open>GetRowByOffset(i).Reset(attr)\<close>, the row at logical offset \<open>i\<close> becomes blank.
  An offset outside the buffer does not occur for a viewport inside the buffer; the
  list update leaves the buffer as it is there.\<close>

definition ResetRowByOffset :: "TextBuffer \<Rightarrow> int \<Rightarrow> TextAttribute \<Rightarrow> TextBuffer" where
  "ResetRowByOffset b i a =
     (if 0 \<le> i \<and> i < int (length (storage b))
      then b\<lparr>storage := (storage b)[nat i := Reset (storage b ! nat i) a]\<rparr>
      else b)"

text \<open>Modelled from the spec: TextBuffer::IncrementCircularBuffer (glossary: "logically rotating which physical row is
  treated as buffer row 0"; section 9: "plus lazily clearing the newly-exposed row"):
  the old first row leaves, a blank row with the current attributes becomes the last.\<close>

definition IncrementCircularBuffer :: "TextBuffer \<Rightarrow> TextBuffer" where
  "IncrementCircularBuffer b =
     (case storage b of
        [] \<Rightarrow> b
      | r # rs \<Rightarrow> b\<lparr>storage := rs @ [Reset r (currentAttributes b)]\<rparr>)"

text \<open>Modelled from the spec: TextBuffer::ScrollRows, the row-range rotation (section 4.3: "a row-range rotation by \<open>-viewportTop\<close>
  positions so that visible content becomes the new top of the buffer"): the \<open>sz\<close>
  rows from \<open>firstRow\<close> move by \<open>delta\<close>; the rows they pass move to the other side.\<close>

definition ScrollRows :: "TextBuffer \<Rightarrow> int \<Rightarrow> int \<Rightarrow> int \<Rightarrow> TextBuffer" where
  "ScrollRows b firstRow sz delta =
     (let st = storage b; f = nat firstRow; n = nat sz in
      if delta = 0 then b
      else if delta < 0 then
        (let d = nat (- delta) in
         b\<lparr>storage := take (f - d) st @ take n (drop f st)
                        @ take d (drop (f - d) st) @ drop (f + n) st\<rparr>)
      else
        (let d = nat delta in
         b\<lparr>storage := take f st @ take d (drop (f + n) st)
                        @ take n (drop f st) @ drop (f + n + d) st\<rparr>))"

text \<open>Modelled from the spec: TextBuffer::GetLastNonSpaceCharacter, the last-non-blank
  query bounded to a rectangle.  A row is scanned from the right
  edge of the rectangle, the rows from its bottom.  The answer is buffer-absolute; on
  a rectangle with no non-blank cell it is (0,0) (section 8, property 4: "the last
  non-blank is (0,0) on an already-cleared screen").\<close>

fun scanCellsBack :: "Cell list \<Rightarrow> nat option" where
  "scanCellsBack [] = None"
| "scanCellsBack (c # cs) =
     (if glyph c \<noteq> UNICODE_SPACE then Some (length cs) else scanCellsBack cs)"

definition rowSegment :: "ROW \<Rightarrow> nat \<Rightarrow> nat \<Rightarrow> Cell list" where
  "rowSegment r l w = take w (drop l (cells r))"

fun scanRowsBack :: "ROW list \<Rightarrow> nat \<Rightarrow> nat \<Rightarrow> (nat \<times> nat) option" where
  "scanRowsBack [] l w = None"
| "scanRowsBack (r # rs) l w =
     (case scanCellsBack (rev (rowSegment r l w)) of
        Some x \<Rightarrow> Some (x, length rs)
      | None \<Rightarrow> scanRowsBack rs l w)"

definition GetLastNonSpaceCharacter :: "TextBuffer \<Rightarrow> Viewport \<Rightarrow> COORD" where
  "GetLastNonSpaceCharacter b v =
     (case scanRowsBack (rev (take (nat (Height v)) (drop (nat (Top v)) (storage b))))
             (nat (Left v)) (nat (Width v)) of
        None \<Rightarrow> \<lparr>X = 0, Y = 0\<rparr>
      | Some (x, y) \<Rightarrow> \<lparr>X = Left v + int x, Y = Top v + int y\<rparr>)"

section \<open>The attribute stack\<close>

text \<open>Modelled from the spec: the SGR stack (section 4.4).  Push stores a snapshot tagged
  with the fields the selector requests; unsupported options are ignored and an entry
  with an empty mask means all fields.  Pop removes the most recent snapshot and merges
  its selected fields onto the attributes passed in; on an empty stack it returns them
  unchanged.  The stack is unbounded.\<close>

datatype SgrField = SgrForeground | SgrBackground | SgrStyle

datatype SgrOption = SaveField SgrField | UnsupportedOption nat

type_synonym VTParameters = "SgrOption list"

record SgrEntry =
  savedAttributes :: TextAttribute
  validParts :: "SgrField list"

fun supportedFields :: "VTParameters \<Rightarrow> SgrField list" where
  "supportedFields [] = []"
| "supportedFields (SaveField f # os) = f # supportedFields os"
| "supportedFields (UnsupportedOption n # os) = supportedFields os"

definition SgrStack_Push :: "SgrEntry list \<Rightarrow> TextAttribute \<Rightarrow> VTParameters \<Rightarrow> SgrEntry list" where
  "SgrStack_Push stack current options =
     \<lparr>savedAttributes = current, validParts = supportedFields options\<rparr> # stack"

definition mergeSaved :: "SgrEntry \<Rightarrow> TextAttribute \<Rightarrow> TextAttribute" where
  "mergeSaved e current =
     (if validParts e = [] then savedAttributes e
      else current
        \<lparr>foreground := (if SgrForeground \<in> set (validParts e)
                         then foreground (savedAttributes e) else foreground current),
         background := (if SgrBackground \<in> set (validParts e)
                         then background (savedAttributes e) else background current),
         styleFlags := (if SgrStyle \<in> set (validParts e)
                         then styleFlags (savedAttributes e) else styleFlags current)\<rparr>)"

definition SgrStack_Pop :: "SgrEntry list \<Rightarrow> TextAttribute \<Rightarrow> TextAttribute \<times> SgrEntry list" where
  "SgrStack_Pop stack current =
     (case stack of
        [] \<Rightarrow> (current, [])
      | e # rest \<Rightarrow> (mergeSaved e current, rest))"

section \<open>The terminal\<close>

datatype EraseType = ToEnd | FromBeginning | EraseAll | Scrollback | OtherEraseType nat

datatype TaskbarState = Clear | Set | Error | Indeterminate | Paused

text \<open>A callback the terminal fires is recorded in \<open>events\<close>, latest last; the taskbar
  notification records the state and progress its handler would read.\<close>

datatype Event = ScrollEvent | TaskbarProgressChanged TaskbarState nat

record Terminal =
  buffer :: TextBuffer
  mutableViewport :: Viewport
  scrollOffset :: int
  sgrStack :: "SgrEntry list"
  taskbarState :: TaskbarState
  taskbarProgress :: nat
  pfnTaskbarProgressChanged :: bool
  events :: "Event list"

text \<open>The minimum progress of the Error and Paused states ("10 in our case", line 516).\<close>

definition TaskbarMinProgress :: nat where
  "TaskbarMinProgress = 10"

definition GetTextAttributes :: "Terminal \<Rightarrow> TextAttribute" where
  "GetTextAttributes t = currentAttributes (buffer t)"

definition SetTextAttributes :: "Terminal \<Rightarrow> TextAttribute \<Rightarrow> Terminal" where
  "SetTextAttributes t attrs = t\<lparr>buffer := (buffer t)\<lparr>currentAttributes := attrs\<rparr>\<rparr>"

definition SetCursorPosition :: "Terminal \<Rightarrow> int \<Rightarrow> int \<Rightarrow> Terminal" where
  "SetCursorPosition t x y =
     (let viewport = mutableViewport t;
          viewOrigin = Origin viewport;
          absoluteX = short_of (X viewOrigin + x);
          absoluteY = short_of (Y viewOrigin + y);
          newPos = Clamp viewport \<lparr>X = absoluteX, Y = absoluteY\<rparr>
      in t\<lparr>buffer := (buffer t)\<lparr>cursor := (cursor (buffer t))\<lparr>position := newPos\<rparr>\<rparr>\<rparr>)"

definition GetCursorPosition :: "Terminal \<Rightarrow> COORD" where
  "GetCursorPosition t =
     (let absoluteCursorPos = position (cursor (buffer t));
          viewport = mutableViewport t;
          viewOrigin = Origin viewport;
          relativeX = short_of (X absoluteCursorPos - X viewOrigin);
          relativeY = short_of (Y absoluteCursorPos - Y viewOrigin)
      in \<lparr>X = relativeX, Y = relativeY\<rparr>)"

subsection \<open>Insert and delete character\<close>

text \<open>The do-while loop of lines 112-116 and 155-159: read the cell at the source
  position, write it at the target position, step both positions; stop when the
  source walk, or else the target walk, leaves its rectangle.  Reading outside the
  buffer is an error.\<close>

function copyCells ::
  "Viewport \<Rightarrow> Viewport \<Rightarrow> WalkDir \<Rightarrow> TextBuffer \<Rightarrow> COORD \<Rightarrow> COORD \<Rightarrow> error + TextBuffer" where
  "copyCells source target dir b sourcePos targetPos =
     (case GetCellDataAt b sourcePos of
        None \<Rightarrow> Inl E_INVALIDARG
      | Some data \<Rightarrow>
          (case WalkInBounds source sourcePos dir of
             None \<Rightarrow> Inr (Write b [data] targetPos None)
           | Some sourcePos' \<Rightarrow>
               (case WalkInBounds target targetPos dir of
                  None \<Rightarrow> Inr (Write b [data] targetPos None)
                | Some targetPos' \<Rightarrow>
                    copyCells source target dir (Write b [data] targetPos None)
                      sourcePos' targetPos')))"
  by pat_completeness auto
termination
proof (relation "measure (\<lambda>(source, target, dir, b, sourcePos, targetPos).
          (case dir of
             LeftToRight \<Rightarrow> nat (RightExclusive source - X sourcePos)
           | RightToLeft \<Rightarrow> nat (X sourcePos - Left source + 1)))")
  show "wf (measure (\<lambda>(source, target, dir, b, sourcePos, targetPos).
          (case dir of
             LeftToRight \<Rightarrow> nat (RightExclusive source - X sourcePos)
           | RightToLeft \<Rightarrow> nat (X sourcePos - Left source + 1))))"
    by simp
next
  fix source target :: Viewport and dir :: WalkDir and b :: TextBuffer
    and sourcePos targetPos sourcePos' targetPos' :: COORD and data :: Cell
  assume "WalkInBounds source sourcePos dir = Some sourcePos'"
  then show "((source, target, dir, Write b [data] targetPos None, sourcePos', targetPos'),
              (source, target, dir, b, sourcePos, targetPos))
             \<in> measure (\<lambda>(source, target, dir, b, sourcePos, targetPos).
          (case dir of
             LeftToRight \<Rightarrow> nat (RightExclusive source - X sourcePos)
           | RightToLeft \<Rightarrow> nat (X sourcePos - Left source + 1)))"
    by (cases dir) (auto simp: WalkInBounds_def IsInBounds_def Let_def split: if_splits)
qed

declare copyCells.simps [simp del]

definition DeleteCharacter :: "Terminal \<Rightarrow> nat \<Rightarrow> error + Terminal" where
  "DeleteCharacter t count =
     (case SizeTToShort count of
        Inl e \<Rightarrow> Inl e
      | Inr dist \<Rightarrow>
          (let cursorPos = position (cursor (buffer t));
               copyToPos = cursorPos;
               copyFromPos = \<lparr>X = short_of (X cursorPos + dist), Y = Y cursorPos\<rparr>;
               sourceWidth = RightExclusive (mutableViewport t) - X copyFromPos
           in case UIntToShort sourceWidth of
                Inl e \<Rightarrow> Inl e
              | Inr width \<Rightarrow>
                  (let source = FromDimensions copyFromPos \<lparr>X = width, Y = 1\<rparr>;
                       target = FromDimensions copyToPos (Dimensions source);
                       walkDirection = DetermineWalkDirection source target;
                       sourcePos = GetWalkOrigin source walkDirection;
                       targetPos = GetWalkOrigin target walkDirection
                   in case copyCells source target walkDirection (buffer t) sourcePos targetPos of
                        Inl e \<Rightarrow> Inl e
                      | Inr b \<Rightarrow> Inr (t\<lparr>buffer := b\<rparr>))))"

definition InsertCharacter :: "Terminal \<Rightarrow> nat \<Rightarrow> error + Terminal" where
  "InsertCharacter t count =
     (case SizeTToShort count of
        Inl e \<Rightarrow> Inl e
      | Inr dist \<Rightarrow>
          (let cursorPos = position (cursor (buffer t));
               copyFromPos = cursorPos;
               copyToPos = \<lparr>X = short_of (X cursorPos + dist), Y = Y cursorPos\<rparr>;
               sourceWidth = RightExclusive (mutableViewport t) - X copyFromPos
           in case UIntToShort sourceWidth of
                Inl e \<Rightarrow> Inl e
              | Inr width \<Rightarrow>
                  (let source = FromDimensions copyFromPos \<lparr>X = width, Y = 1\<rparr>;
                       target = FromDimensions copyToPos (Dimensions source);
                       walkDirection = DetermineWalkDirection source target;
                       sourcePos = GetWalkOrigin source walkDirection;
                       targetPos = GetWalkOrigin target walkDirection
                   in case copyCells source target walkDirection (buffer t) sourcePos targetPos of
                        Inl e \<Rightarrow> Inl e
                      | Inr b \<Rightarrow>
                          (let eraseIter = fillIterator UNICODE_SPACE (currentAttributes b) (nat dist)
                           in Inr (t\<lparr>buffer := Write b eraseIter cursorPos None\<rparr>)))))"

subsection \<open>Erase in line and in display\<close>

text \<open>\<^verbatim>\<open>nlength\<close> is a \<^verbatim>\<open>DWORD\<close>: the \<^verbatim>\<open>int\<close> expression is stored modulo \<open>2^32\<close>.\<close>

definition dword_of :: "int \<Rightarrow> nat" where
  "dword_of i = nat (i mod 4294967296)"

definition EraseInLine :: "Terminal \<Rightarrow> EraseType \<Rightarrow> bool \<times> Terminal" where
  "EraseInLine t eraseType =
     (let cursorPos = position (cursor (buffer t));
          viewport = mutableViewport t;
          startPos = \<lparr>X = 0, Y = Y cursorPos\<rparr>;
          erase = (\<lambda>startPos nlength.
            (let eraseIter = fillIterator UNICODE_SPACE (currentAttributes (buffer t)) nlength
             in (True, t\<lparr>buffer := Write (buffer t) eraseIter startPos (Some False)\<rparr>)))
      in case eraseType of
           FromBeginning \<Rightarrow>
             erase startPos (dword_of (X cursorPos - Left viewport + 1))
         | ToEnd \<Rightarrow>
             (let startPos = startPos\<lparr>X := X cursorPos\<rparr>
              in erase startPos (dword_of (RightExclusive viewport - X startPos)))
         | EraseAll \<Rightarrow>
             (let startPos = startPos\<lparr>X := Left viewport\<rparr>
              in erase startPos (dword_of (RightExclusive viewport - X startPos)))
         | _ \<Rightarrow> (False, t))"

text \<open>The loop of lines 255-259: one circular-buffer increment per row the relocated
  viewport would reach below the buffer, the new top moving up with each.\<close>

function circleLoop :: "int \<Rightarrow> int \<Rightarrow> TextBuffer \<Rightarrow> int \<Rightarrow> TextBuffer \<times> int" where
  "circleLoop i delta b sNewTop =
     (if i < delta
      then circleLoop (i + 1) delta (IncrementCircularBuffer b) (short_of (sNewTop - 1))
      else (b, sNewTop))"
  by pat_completeness auto
termination
  by (relation "measure (\<lambda>(i, delta, b, sNewTop). nat (delta - i))") auto

declare circleLoop.simps [simp del]

text \<open>The loop of lines 276-279: reset the rows \<open>i..eraseEnd\<close>.\<close>

function eraseRows :: "int \<Rightarrow> int \<Rightarrow> TextBuffer \<Rightarrow> TextBuffer" where
  "eraseRows i eraseEnd b =
     (if i \<le> eraseEnd
      then eraseRows (i + 1) eraseEnd (ResetRowByOffset b i (currentAttributes b))
      else b)"
  by pat_completeness auto
termination
  by (relation "measure (\<lambda>(i, eraseEnd, b). nat (eraseEnd + 1 - i))") auto

declare eraseRows.simps [simp del]

text \<open>Modelled from the spec: \<^verbatim>\<open>_NotifyScrollEvent\<close> fires the scroll-changed
  notification (section 4.3); the model records it.\<close>

definition NotifyScrollEvent :: "Terminal \<Rightarrow> Terminal" where
  "NotifyScrollEvent t = t\<lparr>events := events t @ [ScrollEvent]\<rparr>"

definition EraseInDisplay :: "Terminal \<Rightarrow> EraseType \<Rightarrow> bool \<times> Terminal" where
  "EraseInDisplay t eraseType =
     (let cursorPos = position (cursor (buffer t));
          relativeCursor = ConvertToOrigin (mutableViewport t) cursorPos;
          newLeft = Left (mutableViewport t);
          newRight = RightExclusive (mutableViewport t);
          moveViewport = (\<lambda>t newTop newBottom.
            (let newWin = \<lparr>srLeft = newLeft, srTop = newTop, srRight = newRight, srBottom = newBottom\<rparr>;
                 t = t\<lparr>mutableViewport := FromExclusive newWin\<rparr>;
                 t = NotifyScrollEvent t
             in (True, SetCursorPosition t (X relativeCursor) (Y relativeCursor))))
      in if eraseType = EraseAll then
           (let coordLastChar = GetLastNonSpaceCharacter (buffer t) (mutableViewport t)
            in if X coordLastChar = 0 \<and> Y coordLastChar = 0 then (True, t)
               else
                 (let sNewTop = short_of (Y coordLastChar + 1);
                      delta = short_of ((sNewTop + Height (mutableViewport t))
                                        - Height (GetSize (buffer t)));
                      (b, sNewTop) = circleLoop 0 delta (buffer t) sNewTop;
                      t = t\<lparr>buffer := b\<rparr>
                  in moveViewport t sNewTop (short_of (sNewTop + Height (mutableViewport t)))))
         else if eraseType = Scrollback then
           (let scrollFromPos = ConvertFromOrigin (mutableViewport t) \<lparr>X = 0, Y = 0\<rparr>;
                b = ScrollRows (buffer t) (Y scrollFromPos) (Height (mutableViewport t))
                      (short_of (- Y scrollFromPos));
                eraseStart = Height (mutableViewport t);
                eraseEnd = Y (GetLastNonSpaceCharacter b (mutableViewport t));
                b = eraseRows eraseStart eraseEnd b;
                t = t\<lparr>buffer := b, scrollOffset := 0\<rparr>
            in moveViewport t 0 (Height (mutableViewport t)))
         else (False, t))"

subsection \<open>Cursor blinking, taskbar progress, attribute stack\<close>

definition EnableCursorBlinking :: "Terminal \<Rightarrow> bool \<Rightarrow> Terminal" where
  "EnableCursorBlinking t enable =
     (let t = t\<lparr>buffer := (buffer t)\<lparr>cursor := (cursor (buffer t))\<lparr>blinkingAllowed := enable\<rparr>\<rparr>\<rparr>
      in t\<lparr>buffer := (buffer t)\<lparr>cursor := (cursor (buffer t))\<lparr>isOn := True\<rparr>\<rparr>\<rparr>)"

text \<open>\<^verbatim>\<open>_taskbarState\<close> holds the state's number; the model keeps the state itself.
  The switch has one case for Error and Paused together.\<close>

definition SetTaskbarProgress :: "Terminal \<Rightarrow> TaskbarState \<Rightarrow> nat \<Rightarrow> Terminal" where
  "SetTaskbarProgress t state progress =
     (let t = t\<lparr>taskbarState := state\<rparr>;
          errorOrPaused =
            (if progress = 0
             then (if taskbarProgress t = 0
                   then t\<lparr>taskbarProgress := TaskbarMinProgress\<rparr> else t)
             else t\<lparr>taskbarProgress := progress\<rparr>);
          t = (case state of
                 Clear \<Rightarrow> t\<lparr>taskbarProgress := 0\<rparr>
               | Set \<Rightarrow> t\<lparr>taskbarProgress := progress\<rparr>
               | Indeterminate \<Rightarrow> t
               | Error \<Rightarrow> errorOrPaused
               | Paused \<Rightarrow> errorOrPaused)
      in if pfnTaskbarProgressChanged t
         then t\<lparr>events := events t @ [TaskbarProgressChanged (taskbarState t) (taskbarProgress t)]\<rparr>
         else t)"

definition PushGraphicsRendition :: "Terminal \<Rightarrow> VTParameters \<Rightarrow> Terminal" where
  "PushGraphicsRendition t options =
     t\<lparr>sgrStack := SgrStack_Push (sgrStack t) (currentAttributes (buffer t)) options\<rparr>"

definition PopGraphicsRendition :: "Terminal \<Rightarrow> Terminal" where
  "PopGraphicsRendition t =
     (let current = currentAttributes (buffer t);
          (restored, stack) = SgrStack_Pop (sgrStack t) current
      in t\<lparr>sgrStack := stack, buffer := (buffer t)\<lparr>currentAttributes := restored\<rparr>\<rparr>)"

section \<open>Reference definitions and example states\<close>

text \<open>The taskbar transition in the words of the specification (section 4.6): the
  progress after a transition, from the new state, the progress argument and the
  progress before.\<close>

definition specTaskbarProgress :: "TaskbarState \<Rightarrow> nat \<Rightarrow> nat \<Rightarrow> nat" where
  "specTaskbarProgress state progressArg current =
     (if state = Clear then 0
      else if state = Set then progressArg
      else if state = Indeterminate then current
      else if progressArg = 0 then (if current = 0 then TaskbarMinProgress else current)
      else progressArg)"

definition exampleAttr :: "nat \<Rightarrow> TextAttribute" where
  "exampleAttr n = \<lparr>foreground = n, background = 0, styleFlags = 0, hyperlinkId = 0\<rparr>"

text \<open>A row showing the given text, the cells carrying the attributes of the given
  numbers; \<open>exampleRow\<close> numbers the attributes by column, from 1.\<close>

definition attrRow :: "string \<Rightarrow> nat list \<Rightarrow> ROW" where
  "attrRow s ns =
     \<lparr>cells = map (\<lambda>(c, i). \<lparr>glyph = c, attr = exampleAttr i\<rparr>) (zip s ns),
      wrapForced = False\<rparr>"

definition exampleRow :: "string \<Rightarrow> ROW" where
  "exampleRow s = attrRow s [1..<Suc (length s)]"

text \<open>A terminal over the given rows with the cursor at \<open>(cx, cy)\<close>, the viewport at
  \<open>(l, tp)\<close> with \<open>w\<close> columns and \<open>h\<close> rows, and the pen \<open>exampleAttr 99\<close>.\<close>

definition exampleTerminalRows :: "ROW list \<Rightarrow> int \<Rightarrow> int \<Rightarrow> int \<Rightarrow> int \<Rightarrow> int \<Rightarrow> int \<Rightarrow> Terminal" where
  "exampleTerminalRows rows cx cy l tp w h =
     \<lparr>buffer = \<lparr>storage = rows,
                cursor = \<lparr>position = \<lparr>X = cx, Y = cy\<rparr>, isVisible = True,
                          blinkingAllowed = True, isOn = False, cursorType = Legacy\<rparr>,
                currentAttributes = exampleAttr 99\<rparr>,
      mutableViewport = \<lparr>origin = \<lparr>X = l, Y = tp\<rparr>, dimensions = \<lparr>X = w, Y = h\<rparr>\<rparr>,
      scrollOffset = 3,
      sgrStack = [],
      taskbarState = Clear,
      taskbarProgress = 0,
      pfnTaskbarProgressChanged = True,
      events = []\<rparr>"

definition exampleTerminal :: "string list \<Rightarrow> int \<Rightarrow> int \<Rightarrow> int \<Rightarrow> int \<Rightarrow> int \<Rightarrow> int \<Rightarrow> Terminal" where
  "exampleTerminal rows cx cy l tp w h = exampleTerminalRows (map exampleRow rows) cx cy l tp w h"

text \<open>The glyphs and the attributes (by their foreground number) of row \<open>n\<close> of the
  terminal an operation returns; empty when the operation failed.\<close>

definition rowText :: "error + Terminal \<Rightarrow> nat \<Rightarrow> string" where
  "rowText r n =
     (case r of Inl e \<Rightarrow> [] | Inr t \<Rightarrow> map glyph (cells (storage (buffer t) ! n)))"

definition rowAttrs :: "error + Terminal \<Rightarrow> nat \<Rightarrow> nat list" where
  "rowAttrs r n =
     (case r of Inl e \<Rightarrow> []
      | Inr t \<Rightarrow> map (\<lambda>c. foreground (attr c)) (cells (storage (buffer t) ! n)))"

text \<open>The relative coordinate \<open>(x, y)\<close> clamped to the viewport's bounds,
  \<open>[0, width) \<times> [0, height)\<close>, in the words of the specification (section 8,
  property 1).\<close>

definition specClampRelative :: "Viewport \<Rightarrow> int \<Rightarrow> int \<Rightarrow> COORD" where
  "specClampRelative v x y =
     \<lparr>X = max 0 (min (Width v - 1) x), Y = max 0 (min (Height v - 1) y)\<rparr>"

subsection \<open>Well-formed terminals\<close>

definition bufferWidth :: "TextBuffer \<Rightarrow> nat" where
  "bufferWidth b = (case storage b of [] \<Rightarrow> 0 | r # _ \<Rightarrow> length (cells r))"

text \<open>Every row is as wide as the buffer, and the buffer's sides fit a \<^verbatim>\<open>SHORT\<close>.\<close>

definition wfBuffer :: "TextBuffer \<Rightarrow> bool" where
  "wfBuffer b \<longleftrightarrow>
     storage b \<noteq> [] \<and> list_all (\<lambda>r. length (cells r) = bufferWidth b) (storage b)
     \<and> bufferWidth b \<le> 32767 \<and> length (storage b) \<le> 32767"

text \<open>The viewport is a non-empty rectangle inside the buffer and the cursor is inside
  the viewport.\<close>

definition wfTerminal :: "Terminal \<Rightarrow> bool" where
  "wfTerminal t \<longleftrightarrow>
     wfBuffer (buffer t)
     \<and> 0 \<le> Left (mutableViewport t) \<and> 0 < Width (mutableViewport t)
     \<and> RightExclusive (mutableViewport t) \<le> int (bufferWidth (buffer t))
     \<and> 0 \<le> Top (mutableViewport t) \<and> 0 < Height (mutableViewport t)
     \<and> BottomExclusive (mutableViewport t) \<le> int (length (storage (buffer t)))
     \<and> IsInBounds (mutableViewport t) (position (cursor (buffer t)))"

subsection \<open>Copying through a temporary buffer\<close>

text \<open>The oracle of the overlap-safety property (section 8, property 3): read the whole
  source run into a temporary list, then write the list to the target run cell by
  cell.\<close>

definition readRun :: "TextBuffer \<Rightarrow> Viewport \<Rightarrow> Cell list option" where
  "readRun b source =
     those (map (\<lambda>i. GetCellDataAt b \<lparr>X = Left source + int i, Y = Top source\<rparr>)
              [0..<nat (Width source)])"

fun writeRun :: "TextBuffer \<Rightarrow> COORD \<Rightarrow> Cell list \<Rightarrow> TextBuffer" where
  "writeRun b pos [] = b"
| "writeRun b pos (c # cs) = writeRun (Write b [c] pos None) (pos\<lparr>X := X pos + 1\<rparr>) cs"

definition oracleCopy :: "TextBuffer \<Rightarrow> Viewport \<Rightarrow> Viewport \<Rightarrow> error + TextBuffer" where
  "oracleCopy b source target =
     (case readRun b source of
        None \<Rightarrow> Inl E_INVALIDARG
      | Some tmp \<Rightarrow> Inr (writeRun b (Origin target) tmp))"

text \<open>The one-row rectangles of section 4.2.  Delete: the source run starts \<open>count\<close>
  cells right of the cursor and extends to the viewport's right edge, the target run
  starts at the cursor.  Insert: the source run is the cursor-to-right-edge content,
  the target run starts \<open>count\<close> cells to the right of the cursor.\<close>

definition deleteSource :: "Terminal \<Rightarrow> nat \<Rightarrow> Viewport" where
  "deleteSource t n =
     (let c = position (cursor (buffer t))
      in FromDimensions \<lparr>X = X c + int n, Y = Y c\<rparr>
           \<lparr>X = RightExclusive (mutableViewport t) - (X c + int n), Y = 1\<rparr>)"

definition deleteTarget :: "Terminal \<Rightarrow> nat \<Rightarrow> Viewport" where
  "deleteTarget t n =
     FromDimensions (position (cursor (buffer t))) (Dimensions (deleteSource t n))"

definition insertSource :: "Terminal \<Rightarrow> Viewport" where
  "insertSource t =
     (let c = position (cursor (buffer t))
      in FromDimensions c \<lparr>X = RightExclusive (mutableViewport t) - X c, Y = 1\<rparr>)"

definition insertTarget :: "Terminal \<Rightarrow> nat \<Rightarrow> Viewport" where
  "insertTarget t n =
     (let c = position (cursor (buffer t))
      in FromDimensions \<lparr>X = X c + int n, Y = Y c\<rparr> (Dimensions (insertSource t)))"

definition rectsOverlap :: "Viewport \<Rightarrow> Viewport \<Rightarrow> bool" where
  "rectsOverlap a b \<longleftrightarrow>
     Left a < RightExclusive b \<and> Left b < RightExclusive a
     \<and> Top a < BottomExclusive b \<and> Top b < BottomExclusive a"

definition oracleDeleteCharacter :: "Terminal \<Rightarrow> nat \<Rightarrow> error + Terminal" where
  "oracleDeleteCharacter t n =
     (case oracleCopy (buffer t) (deleteSource t n) (deleteTarget t n) of
        Inl e \<Rightarrow> Inl e
      | Inr b \<Rightarrow> Inr (t\<lparr>buffer := b\<rparr>))"

definition oracleInsertCharacter :: "Terminal \<Rightarrow> nat \<Rightarrow> error + Terminal" where
  "oracleInsertCharacter t n =
     (case oracleCopy (buffer t) (insertSource t) (insertTarget t n) of
        Inl e \<Rightarrow> Inl e
      | Inr b \<Rightarrow>
          Inr (t\<lparr>buffer := Write b (fillIterator UNICODE_SPACE (currentAttributes b) n)
                               (position (cursor (buffer t))) None\<rparr>))"

text \<open>Row \<open>y\<close> of the buffer with its cells replaced, and the cells of a row after the
  run of \<open>orig\<close> that starts at column \<open>s\<close> has been copied to column \<open>t\<close> for the
  offsets \<open>lo \<le> i < hi\<close> (a cell that would land past the row's end is dropped).\<close>

definition setRowCells :: "TextBuffer \<Rightarrow> nat \<Rightarrow> Cell list \<Rightarrow> TextBuffer" where
  "setRowCells b y cs = b\<lparr>storage := (storage b)[y := (storage b ! y)\<lparr>cells := cs\<rparr>]\<rparr>"

definition shiftPart :: "Cell list \<Rightarrow> nat \<Rightarrow> nat \<Rightarrow> nat \<Rightarrow> nat \<Rightarrow> Cell list" where
  "shiftPart orig s t lo hi =
     map (\<lambda>x. if t + lo \<le> x \<and> x < t + hi then orig ! (x - t + s) else orig ! x)
       [0..<length orig]"

subsection \<open>What the viewport shows\<close>




text \<open>A row shows only blanks between columns \<open>l\<close> and \<open>l + w\<close>; nothing non-blank lies
  below the viewport, in the viewport's columns.\<close>

definition blankSegment :: "ROW \<Rightarrow> nat \<Rightarrow> nat \<Rightarrow> bool" where
  "blankSegment r l w \<longleftrightarrow> list_all (\<lambda>c. glyph c = UNICODE_SPACE) (rowSegment r l w)"

definition blankBelowViewport :: "Terminal \<Rightarrow> bool" where
  "blankBelowViewport t \<longleftrightarrow>
     list_all (\<lambda>r. blankSegment r (nat (Left (mutableViewport t))) (nat (Width (mutableViewport t))))
       (drop (nat (BottomExclusive (mutableViewport t))) (storage (buffer t)))"

section \<open>Cursor blinking\<close>

text \<open>Claim C10.  For either argument, EnableCursorBlinking sets the cursor's
  blink-allowed flag to the argument and the on/off phase flag to On, also when
  blinking is being disabled; the visibility flag, the position and the shape of the
  cursor, and everything outside the cursor, stay as they were.\<close>

theorem EnableCursorBlinking_on:
  "blinkingAllowed (cursor (buffer (EnableCursorBlinking t enable))) = enable
   \<and> isOn (cursor (buffer (EnableCursorBlinking t enable))) = True
   \<and> isVisible (cursor (buffer (EnableCursorBlinking t enable))) = isVisible (cursor (buffer t))
   \<and> position (cursor (buffer (EnableCursorBlinking t enable))) = position (cursor (buffer t))
   \<and> cursorType (cursor (buffer (EnableCursorBlinking t enable))) = cursorType (cursor (buffer t))
   \<and> storage (buffer (EnableCursorBlinking t enable)) = storage (buffer t)
   \<and> mutableViewport (EnableCursorBlinking t enable) = mutableViewport t"
  by (simp add: EnableCursorBlinking_def)

section \<open>Taskbar progress\<close>

text \<open>Claim C9.  SetTaskbarProgress implements the transition function of the
  specification: the stored state becomes the new state in every case, the progress
  becomes what the transition function gives, and a registered change notification
  fires after the transition, so that its handler reads the new state and progress.
  With no handler registered nothing is fired.\<close>

theorem SetTaskbarProgress_transition:
  "taskbarState (SetTaskbarProgress t state progress) = state
   \<and> taskbarProgress (SetTaskbarProgress t state progress)
       = specTaskbarProgress state progress (taskbarProgress t)
   \<and> events (SetTaskbarProgress t state progress)
       = (if pfnTaskbarProgressChanged t
          then events t @ [TaskbarProgressChanged state
                             (specTaskbarProgress state progress (taskbarProgress t))]
          else events t)
   \<and> buffer (SetTaskbarProgress t state progress) = buffer t"
  by (cases state) (simp_all add: SetTaskbarProgress_def specTaskbarProgress_def Let_def)

section \<open>Unsupported erase modes\<close>

text \<open>Claim C4.  For a mode that is none of FromBeginning, ToEnd and All, EraseInLine
  returns false and the terminal is exactly as before; for a mode that is neither All
  nor Scrollback, EraseInDisplay returns false and the terminal is exactly as before
  (buffer cells, viewport, scroll offset, cursor and fired notifications included).\<close>

theorem Erase_unsupported_mode:
  "(eraseType \<noteq> FromBeginning \<and> eraseType \<noteq> ToEnd \<and> eraseType \<noteq> EraseAll
      \<longrightarrow> EraseInLine t eraseType = (False, t))
   \<and> (eraseType \<noteq> EraseAll \<and> eraseType \<noteq> Scrollback
      \<longrightarrow> EraseInDisplay t eraseType = (False, t))"
  by (cases eraseType) (simp_all add: EraseInLine_def EraseInDisplay_def Let_def)

theorem Erase_unsupported_mode_witness:
  "EraseInLine (exampleTerminal [''ab'', ''cd''] 1 1 0 0 2 2) Scrollback
     = (False, exampleTerminal [''ab'', ''cd''] 1 1 0 0 2 2)
   \<and> EraseInLine (exampleTerminal [''ab'', ''cd''] 1 1 0 0 2 2) (OtherEraseType 7)
     = (False, exampleTerminal [''ab'', ''cd''] 1 1 0 0 2 2)
   \<and> EraseInDisplay (exampleTerminal [''ab'', ''cd''] 1 1 0 0 2 2) ToEnd
     = (False, exampleTerminal [''ab'', ''cd''] 1 1 0 0 2 2)
   \<and> EraseInDisplay (exampleTerminal [''ab'', ''cd''] 1 1 0 0 2 2) (OtherEraseType 7)
     = (False, exampleTerminal [''ab'', ''cd''] 1 1 0 0 2 2)"
  using Erase_unsupported_mode [of Scrollback "exampleTerminal [''ab'', ''cd''] 1 1 0 0 2 2"]
    Erase_unsupported_mode [of ToEnd "exampleTerminal [''ab'', ''cd''] 1 1 0 0 2 2"]
    Erase_unsupported_mode [of "OtherEraseType 7" "exampleTerminal [''ab'', ''cd''] 1 1 0 0 2 2"]
  by simp

section \<open>Attribute stack\<close>

text \<open>Claim C8.  The attribute stack round-trips: after PushGraphicsRendition with the
  empty (all fields) selector, PopGraphicsRendition gives back the terminal as it was
  before the push, and it restores the pushed attributes as the buffer's current
  attributes whatever the attributes were set to in between.  PopGraphicsRendition on
  an empty stack leaves the terminal, its current attributes included, unchanged.\<close>

theorem Push_Pop_roundtrip:
  "PopGraphicsRendition (PushGraphicsRendition t []) = t
   \<and> GetTextAttributes (PopGraphicsRendition (SetTextAttributes (PushGraphicsRendition t []) a))
       = GetTextAttributes t
   \<and> sgrStack (PopGraphicsRendition (SetTextAttributes (PushGraphicsRendition t []) a))
       = sgrStack t
   \<and> (sgrStack t = [] \<longrightarrow> PopGraphicsRendition t = t)"
  by (simp add: PopGraphicsRendition_def PushGraphicsRendition_def SetTextAttributes_def
      GetTextAttributes_def SgrStack_Pop_def SgrStack_Push_def mergeSaved_def)

theorem Push_Pop_roundtrip_witness:
  "PopGraphicsRendition (exampleTerminal [''ab''] 0 0 0 0 2 1) = exampleTerminal [''ab''] 0 0 0 0 2 1
   \<and> GetTextAttributes (PopGraphicsRendition (SetTextAttributes
         (PushGraphicsRendition (exampleTerminal [''ab''] 0 0 0 0 2 1) []) (exampleAttr 5)))
       = exampleAttr 99"
  using Push_Pop_roundtrip [of "exampleTerminal [''ab''] 0 0 0 0 2 1" "exampleAttr 5"]
  by (simp add: exampleTerminal_def exampleTerminalRows_def GetTextAttributes_def)

section \<open>Cursor position\<close>

text \<open>Without 16-bit overflow in the sums \<open>origin + x\<close> and \<open>origin + y\<close>,
  SetCursorPosition followed by GetCursorPosition returns the input clamped to
  \<open>[0, width) \<times> [0, height)\<close>, and only the cursor position changes.\<close>

lemma short_of_id: "- 32768 \<le> i \<Longrightarrow> i \<le> 32767 \<Longrightarrow> short_of i = i"
  by (simp add: short_of_def)

lemma SetCursorPosition_clamps_in_range:
  assumes dims: "0 < Width (mutableViewport t)" "Width (mutableViewport t) \<le> 32767"
      "0 < Height (mutableViewport t)" "Height (mutableViewport t) \<le> 32767"
    and xr: "- 32768 \<le> Left (mutableViewport t) + x" "Left (mutableViewport t) + x \<le> 32767"
    and yr: "- 32768 \<le> Top (mutableViewport t) + y" "Top (mutableViewport t) + y \<le> 32767"
  shows "GetCursorPosition (SetCursorPosition t x y) = specClampRelative (mutableViewport t) x y
    \<and> mutableViewport (SetCursorPosition t x y) = mutableViewport t
    \<and> storage (buffer (SetCursorPosition t x y)) = storage (buffer t)"
proof -
  let ?v = "mutableViewport t"
  have ax: "short_of (X (Origin ?v) + x) = Left ?v + x"
    using xr by (simp add: short_of_id Origin_def Left_def)
  have ay: "short_of (Y (Origin ?v) + y) = Top ?v + y"
    using yr by (simp add: short_of_id Origin_def Top_def)
  have rx: "short_of (max (Left ?v) (min (RightInclusive ?v) (Left ?v + x)) - Left ?v)
              = max 0 (min (Width ?v - 1) x)"
    using dims by (subst short_of_id) (auto simp: RightInclusive_def RightExclusive_def)
  have ry: "short_of (max (Top ?v) (min (BottomInclusive ?v) (Top ?v + y)) - Top ?v)
              = max 0 (min (Height ?v - 1) y)"
    using dims by (subst short_of_id) (auto simp: BottomInclusive_def BottomExclusive_def)
  have "GetCursorPosition (SetCursorPosition t x y)
          = \<lparr>X = short_of (max (Left ?v) (min (RightInclusive ?v) (Left ?v + x)) - Left ?v),
             Y = short_of (max (Top ?v) (min (BottomInclusive ?v) (Top ?v + y)) - Top ?v)\<rparr>"
    unfolding GetCursorPosition_def SetCursorPosition_def Let_def ax ay
    by (simp add: Clamp_def Origin_def Left_def Top_def)
  then show ?thesis
    by (simp add: rx ry specClampRelative_def SetCursorPosition_def Let_def)
qed

text \<open>Claim C7.  The claim fails where the 16-bit sum of viewport origin and relative
  coordinate overflows: with the viewport on rows 2 and 3 of a four-row buffer,
  SetCursorPosition(0, 32766) followed by GetCursorPosition returns row 0, while the
  input clamped to the viewport is row 1.\<close>

theorem SetCursorPosition_overflow:
  "GetCursorPosition
     (SetCursorPosition (exampleTerminal [''ab'', ''cd'', ''ef'', ''gh''] 0 2 0 2 2 2) 0 32766)
     = \<lparr>X = 0, Y = 0\<rparr>
   \<and> specClampRelative
       (mutableViewport (exampleTerminal [''ab'', ''cd'', ''ef'', ''gh''] 0 2 0 2 2 2)) 0 32766
     = \<lparr>X = 0, Y = 1\<rparr>
   \<and> wfTerminal (exampleTerminal [''ab'', ''cd'', ''ef'', ''gh''] 0 2 0 2 2 2)"
  by (simp add: GetCursorPosition_def SetCursorPosition_def specClampRelative_def Clamp_def
      exampleTerminal_def exampleTerminalRows_def exampleRow_def attrRow_def Origin_def
      Left_def Top_def Width_def Height_def RightInclusive_def RightExclusive_def
      BottomInclusive_def BottomExclusive_def short_of_def Let_def wfTerminal_def wfBuffer_def
      bufferWidth_def IsInBounds_def)

section \<open>Insert and delete character on an example row\<close>

lemmas eval_defs = exampleTerminal_def exampleTerminalRows_def exampleRow_def attrRow_def
  exampleAttr_def InsertCharacter_def DeleteCharacter_def SizeTToShort_def UIntToShort_def
  short_of_def RightExclusive_def RightInclusive_def Left_def Top_def Width_def Height_def
  BottomExclusive_def FromDimensions_def Dimensions_def DetermineWalkDirection_def
  GetWalkOrigin_def WalkInBounds_def IsInBounds_def GetSize_def GetCellDataAt_def Write_def
  WriteLine_def fillIterator_def Let_def UNICODE_SPACE_def copyCells.simps upt_rec

lemma example_wf_abcde: "wfTerminal (exampleTerminal [''abcde''] 2 0 0 0 5 1)"
  by (simp add: wfTerminal_def wfBuffer_def bufferWidth_def BottomExclusive_def eval_defs)

lemma example_delete_2:
  "DeleteCharacter (exampleTerminal [''abcde''] 2 0 0 0 5 1) 2
     = Inr (exampleTerminalRows [attrRow ''abede'' [1, 2, 5, 4, 5]] 2 0 0 0 5 1)"
  by (simp add: eval_defs)

text \<open>Claim C2, as stated, fails for DeleteCharacter: on the row \<open>[a,b,c,d,e]\<close> with the
  cursor before \<open>c\<close>, DeleteCharacter(2) puts \<open>e\<close> (the cell two to the right of the
  cursor), not \<open>d\<close>, at the cursor.\<close>

theorem DeleteCharacter_example_not_abde:
  "rowText (DeleteCharacter (exampleTerminal [''abcde''] 2 0 0 0 5 1) 2) 0 = ''abede''
   \<and> rowText (DeleteCharacter (exampleTerminal [''abcde''] 2 0 0 0 5 1) 2) 0 ! 2 \<noteq> CHR ''d''
   \<and> wfTerminal (exampleTerminal [''abcde''] 2 0 0 0 5 1)"
  by (simp add: example_delete_2 rowText_def exampleTerminalRows_def attrRow_def
      example_wf_abcde)

text \<open>Claim C2, amended.  On the five-column row \<open>[a,b,c,d,e]\<close> with the cursor before
  \<open>c\<close>, InsertCharacter(2) yields \<open>[a,b, , ,c]\<close>: \<open>c\<close> keeps its attribute, the two
  inserted blanks carry the pen's attribute (number 99), and \<open>d\<close>, \<open>e\<close> are shifted
  past the right edge and dropped; on the six-column row \<open>[a,b,c,d,e,f]\<close> it yields
  \<open>[a,b, , ,c,d]\<close>.  DeleteCharacter(2) on \<open>[a,b,c,d,e]\<close> yields \<open>[a,b,e,d,e]\<close>: \<open>e\<close>
  moves to the cursor with its attribute and the cells behind it are not blanked.
  Nothing but the cells of the row changes.\<close>

theorem InsertDelete_example:
  "InsertCharacter (exampleTerminal [''abcde''] 2 0 0 0 5 1) 2
     = Inr (exampleTerminalRows [attrRow ''ab  c'' [1, 2, 99, 99, 3]] 2 0 0 0 5 1)
   \<and> InsertCharacter (exampleTerminal [''abcdef''] 2 0 0 0 6 1) 2
     = Inr (exampleTerminalRows [attrRow ''ab  cd'' [1, 2, 99, 99, 3, 4]] 2 0 0 0 6 1)
   \<and> DeleteCharacter (exampleTerminal [''abcde''] 2 0 0 0 5 1) 2
     = Inr (exampleTerminalRows [attrRow ''abede'' [1, 2, 5, 4, 5]] 2 0 0 0 5 1)"
  by (simp add: eval_defs)

section \<open>Facts about the buffer primitives\<close>

lemma wf_row_length:
  "wfBuffer b \<Longrightarrow> y < length (storage b) \<Longrightarrow> length (cells (storage b ! y)) = bufferWidth b"
  by (simp add: wfBuffer_def list_all_length)

lemma GetSize_bounds:
  "Left (GetSize b) = 0" "Top (GetSize b) = 0"
  "RightExclusive (GetSize b) = int (bufferWidth b)"
  "BottomExclusive (GetSize b) = int (length (storage b))"
  "Width (GetSize b) = int (bufferWidth b)"
  "Height (GetSize b) = int (length (storage b))"
  by (simp_all add: GetSize_def Left_def Top_def RightExclusive_def BottomExclusive_def
      Width_def Height_def bufferWidth_def split: list.split)

lemma IsInBounds_GetSize:
  "IsInBounds (GetSize b) pos \<longleftrightarrow>
     0 \<le> X pos \<and> X pos < int (bufferWidth b) \<and> 0 \<le> Y pos \<and> Y pos < int (length (storage b))"
  by (simp add: IsInBounds_def GetSize_bounds)

lemma GetCellDataAt_nat:
  "x < bufferWidth b \<Longrightarrow> y < length (storage b) \<Longrightarrow>
   GetCellDataAt b \<lparr>X = int x, Y = int y\<rparr> = Some (cells (storage b ! y) ! x)"
  by (simp add: GetCellDataAt_def IsInBounds_GetSize)

lemma WriteRows_Nil: "WriteRows rs [] x w = rs"
  by (cases rs) simp_all

lemma WriteLine_single:
  "x < length (cells r) \<Longrightarrow> WriteLine r [c] x None = r\<lparr>cells := (cells r)[x := c]\<rparr>"
  by (simp add: WriteLine_def Let_def upd_conv_take_nth_drop min_def)

lemma setRowCells_same: "setRowCells b y (cells (storage b ! y)) = b"
  by (simp add: setRowCells_def)

lemma Write_single:
  assumes "wfBuffer b" "y < length (storage b)"
  shows "Write b [c] \<lparr>X = int x, Y = int y\<rparr> None
           = setRowCells b y ((cells (storage b ! y))[x := c])"
proof (cases "x < bufferWidth b")
  case True
  have len: "length (cells (storage b ! y)) = bufferWidth b"
    using assms by (rule wf_row_length)
  have dr: "drop y (storage b) = storage b ! y # drop (Suc y) (storage b)"
    using assms(2) by (simp add: Cons_nth_drop_Suc)
  have "WriteRows (drop y (storage b)) [c] x None
          = (storage b ! y)\<lparr>cells := (cells (storage b ! y))[x := c]\<rparr> # drop (Suc y) (storage b)"
    using True len by (simp add: dr WriteLine_single WriteRows_Nil)
  then show ?thesis
    using True assms(2)
    by (simp add: Write_def IsInBounds_GetSize setRowCells_def upd_conv_take_nth_drop)
next
  case False
  have len: "length (cells (storage b ! y)) = bufferWidth b"
    using assms by (rule wf_row_length)
  show ?thesis
    using False len
    by (simp add: Write_def IsInBounds_GetSize list_update_beyond setRowCells_same)
qed

lemma Write_outside:
  "X pos < 0 \<or> int (bufferWidth b) \<le> X pos \<Longrightarrow> Write b it pos w = b"
  by (auto simp: Write_def IsInBounds_GetSize)

lemma storage_setRowCells:
  "length (storage (setRowCells b y cs)) = length (storage b)"
  by (simp add: setRowCells_def)

lemma cells_setRowCells:
  "y < length (storage b) \<Longrightarrow> cells (storage (setRowCells b y cs) ! y) = cs"
  by (simp add: setRowCells_def)

lemma setRowCells_twice:
  "setRowCells (setRowCells b y cs) y cs' = setRowCells b y cs'"
  by (cases "y < length (storage b)") (simp_all add: setRowCells_def list_update_beyond)

lemma bufferWidth_setRowCells:
  assumes "wfBuffer b" "y < length (storage b)" "length cs = bufferWidth b"
  shows "bufferWidth (setRowCells b y cs) = bufferWidth b"
proof (cases "storage b")
  case Nil
  then show ?thesis using assms by simp
next
  case (Cons r rs)
  then show ?thesis
    using assms by (cases y) (simp_all add: setRowCells_def bufferWidth_def)
qed

lemma wfBuffer_setRowCells:
  assumes "wfBuffer b" "y < length (storage b)" "length cs = bufferWidth b"
  shows "wfBuffer (setRowCells b y cs)"
proof -
  have w: "bufferWidth (setRowCells b y cs) = bufferWidth b"
    using assms by (rule bufferWidth_setRowCells)
  have "list_all (\<lambda>r. length (cells r) = bufferWidth b) (storage (setRowCells b y cs))"
    using assms
    by (auto simp: wfBuffer_def list_all_length setRowCells_def nth_list_update)
  then show ?thesis
    using assms(1) by (simp add: wfBuffer_def w) (simp add: setRowCells_def)
qed

lemma currentAttributes_setRowCells:
  "currentAttributes (setRowCells b y cs) = currentAttributes b"
  by (simp add: setRowCells_def)

section \<open>Facts about the shifted row\<close>

lemma length_shiftPart: "length (shiftPart orig s t lo hi) = length orig"
  by (simp add: shiftPart_def)

lemma nth_shiftPart:
  "x < length orig \<Longrightarrow>
   shiftPart orig s t lo hi ! x
     = (if t + lo \<le> x \<and> x < t + hi then orig ! (x - t + s) else orig ! x)"
  by (simp add: shiftPart_def)

lemma shiftPart_empty: "hi \<le> lo \<Longrightarrow> shiftPart orig s t lo hi = orig"
  by (rule nth_equalityI) (auto simp: length_shiftPart nth_shiftPart)

lemma shiftPart_step_up:
  "(shiftPart orig s t 0 i)[t + i := orig ! (s + i)] = shiftPart orig s t 0 (Suc i)"
proof (rule nth_equalityI)
  show "length ((shiftPart orig s t 0 i)[t + i := orig ! (s + i)])
          = length (shiftPart orig s t 0 (Suc i))"
    by (simp add: length_shiftPart)
next
  fix x
  assume "x < length ((shiftPart orig s t 0 i)[t + i := orig ! (s + i)])"
  then have x: "x < length orig"
    by (simp add: length_shiftPart)
  show "(shiftPart orig s t 0 i)[t + i := orig ! (s + i)] ! x = shiftPart orig s t 0 (Suc i) ! x"
  proof (cases "x = t + i")
    case True
    then show ?thesis
      using x by (simp add: length_shiftPart nth_shiftPart ac_simps)
  next
    case False
    then show ?thesis
      using x by (auto simp: length_shiftPart nth_shiftPart)
  qed
qed

lemma shiftPart_step_down:
  assumes "i < w"
  shows "(shiftPart orig s t (Suc i) w)[t + i := orig ! (s + i)] = shiftPart orig s t i w"
proof (rule nth_equalityI)
  show "length ((shiftPart orig s t (Suc i) w)[t + i := orig ! (s + i)])
          = length (shiftPart orig s t i w)"
    by (simp add: length_shiftPart)
next
  fix x
  assume "x < length ((shiftPart orig s t (Suc i) w)[t + i := orig ! (s + i)])"
  then have x: "x < length orig"
    by (simp add: length_shiftPart)
  show "(shiftPart orig s t (Suc i) w)[t + i := orig ! (s + i)] ! x = shiftPart orig s t i w ! x"
  proof (cases "x = t + i")
    case True
    then show ?thesis
      using x assms by (simp add: length_shiftPart nth_shiftPart ac_simps)
  next
    case False
    then show ?thesis
      using x by (auto simp: length_shiftPart nth_shiftPart)
  qed
qed

section \<open>The copy loop on a one-row rectangle\<close>

lemma walk_left_to_right:
  "WalkInBounds (FromDimensions \<lparr>X = int s, Y = int y\<rparr> \<lparr>X = int w, Y = 1\<rparr>)
     \<lparr>X = int (s + i), Y = int y\<rparr> LeftToRight
   = (if Suc i < w then Some \<lparr>X = int (s + Suc i), Y = int y\<rparr> else None)"
  by (auto simp: WalkInBounds_def FromDimensions_def IsInBounds_def Left_def Top_def Width_def
      Height_def RightExclusive_def BottomExclusive_def Let_def)

lemma walk_right_to_left_Suc:
  "Suc i < w \<or> Suc i = w \<Longrightarrow>
   WalkInBounds (FromDimensions \<lparr>X = int s, Y = int y\<rparr> \<lparr>X = int w, Y = 1\<rparr>)
     \<lparr>X = int (s + Suc i), Y = int y\<rparr> RightToLeft
   = Some \<lparr>X = int (s + i), Y = int y\<rparr>"
  by (auto simp: WalkInBounds_def FromDimensions_def IsInBounds_def Left_def Top_def Width_def
      Height_def RightExclusive_def BottomExclusive_def Let_def)

lemma walk_right_to_left_0:
  "WalkInBounds (FromDimensions \<lparr>X = int s, Y = int y\<rparr> \<lparr>X = int w, Y = 1\<rparr>)
     \<lparr>X = int (s + 0), Y = int y\<rparr> RightToLeft = None"
  by (auto simp: WalkInBounds_def FromDimensions_def IsInBounds_def Left_def Top_def Width_def
      Height_def RightExclusive_def BottomExclusive_def Let_def)

lemma copyCells_left_to_right:
  assumes "wfBuffer b" "y < length (storage b)" "length orig = bufferWidth b"
    and "t \<le> s" "s + w \<le> bufferWidth b" "i < w"
    and "cells (storage b ! y) = shiftPart orig s t 0 i"
  shows "copyCells (FromDimensions \<lparr>X = int s, Y = int y\<rparr> \<lparr>X = int w, Y = 1\<rparr>)
           (FromDimensions \<lparr>X = int t, Y = int y\<rparr> \<lparr>X = int w, Y = 1\<rparr>) LeftToRight b
           \<lparr>X = int (s + i), Y = int y\<rparr> \<lparr>X = int (t + i), Y = int y\<rparr>
         = Inr (setRowCells b y (shiftPart orig s t 0 w))"
  using assms
proof (induction k \<equiv> "w - Suc i" arbitrary: i b)
  case 0
  then have w: "w = Suc i" by simp
  have rd: "GetCellDataAt b \<lparr>X = int (s + i), Y = int y\<rparr> = Some (orig ! (s + i))"
    using 0 by (simp add: GetCellDataAt_nat nth_shiftPart del: of_nat_add of_nat_Suc)
  have wr: "Write b [orig ! (s + i)] \<lparr>X = int (t + i), Y = int y\<rparr> None
              = setRowCells b y (shiftPart orig s t 0 (Suc i))"
    using 0 by (simp add: Write_single shiftPart_step_up del: of_nat_add of_nat_Suc)
  show ?case
    by (subst copyCells.simps) (simp add: rd wr walk_left_to_right w del: of_nat_add of_nat_Suc)
next
  case (Suc k)
  then have lt: "Suc i < w" by simp
  let ?b = "setRowCells b y (shiftPart orig s t 0 (Suc i))"
  have rd: "GetCellDataAt b \<lparr>X = int (s + i), Y = int y\<rparr> = Some (orig ! (s + i))"
    using Suc.prems by (simp add: GetCellDataAt_nat nth_shiftPart del: of_nat_add of_nat_Suc)
  have wr: "Write b [orig ! (s + i)] \<lparr>X = int (t + i), Y = int y\<rparr> None = ?b"
    using Suc.prems by (simp add: Write_single shiftPart_step_up del: of_nat_add of_nat_Suc)
  have wf': "wfBuffer ?b"
    using Suc.prems by (simp add: wfBuffer_setRowCells length_shiftPart)
  have bw: "bufferWidth ?b = bufferWidth b"
    using Suc.prems by (simp add: bufferWidth_setRowCells length_shiftPart)
  have ih: "copyCells (FromDimensions \<lparr>X = int s, Y = int y\<rparr> \<lparr>X = int w, Y = 1\<rparr>)
           (FromDimensions \<lparr>X = int t, Y = int y\<rparr> \<lparr>X = int w, Y = 1\<rparr>) LeftToRight ?b
           \<lparr>X = int (s + Suc i), Y = int y\<rparr> \<lparr>X = int (t + Suc i), Y = int y\<rparr>
         = Inr (setRowCells ?b y (shiftPart orig s t 0 w))"
    using Suc.hyps(2) Suc.prems lt wf' bw
    by (intro Suc.hyps(1)) (simp_all add: storage_setRowCells cells_setRowCells)
  have wk: "WalkInBounds (FromDimensions \<lparr>X = int s, Y = int y\<rparr> \<lparr>X = int w, Y = 1\<rparr>)
     \<lparr>X = int (s + i), Y = int y\<rparr> LeftToRight = Some \<lparr>X = int (s + Suc i), Y = int y\<rparr>"
    using lt by (simp only: walk_left_to_right if_True)
  have wk': "WalkInBounds (FromDimensions \<lparr>X = int t, Y = int y\<rparr> \<lparr>X = int w, Y = 1\<rparr>)
     \<lparr>X = int (t + i), Y = int y\<rparr> LeftToRight = Some \<lparr>X = int (t + Suc i), Y = int y\<rparr>"
    using lt by (simp only: walk_left_to_right if_True)
  show ?case
    by (subst copyCells.simps)
      (simp only: rd wr wk wk' ih setRowCells_twice option.case)
qed

lemma copyCells_right_to_left:
  assumes "wfBuffer b" "y < length (storage b)" "length orig = bufferWidth b"
    and "s \<le> t" "s + w \<le> bufferWidth b" "i < w"
    and "cells (storage b ! y) = shiftPart orig s t (Suc i) w"
  shows "copyCells (FromDimensions \<lparr>X = int s, Y = int y\<rparr> \<lparr>X = int w, Y = 1\<rparr>)
           (FromDimensions \<lparr>X = int t, Y = int y\<rparr> \<lparr>X = int w, Y = 1\<rparr>) RightToLeft b
           \<lparr>X = int (s + i), Y = int y\<rparr> \<lparr>X = int (t + i), Y = int y\<rparr>
         = Inr (setRowCells b y (shiftPart orig s t 0 w))"
  using assms
proof (induction i arbitrary: b)
  case 0
  have rd: "GetCellDataAt b \<lparr>X = int (s + 0), Y = int y\<rparr> = Some (orig ! (s + 0))"
    using 0 by (simp add: GetCellDataAt_nat nth_shiftPart del: of_nat_add of_nat_Suc)
  have wr: "Write b [orig ! (s + 0)] \<lparr>X = int (t + 0), Y = int y\<rparr> None
              = setRowCells b y (shiftPart orig s t 0 w)"
    using 0 shiftPart_step_down [of 0 w orig s t] by (simp add: Write_single del: of_nat_add of_nat_Suc)
  show ?case
    by (subst copyCells.simps) (simp only: rd wr walk_right_to_left_0 option.case)
next
  case (Suc i)
  let ?b = "setRowCells b y (shiftPart orig s t (Suc i) w)"
  have rd: "GetCellDataAt b \<lparr>X = int (s + Suc i), Y = int y\<rparr> = Some (orig ! (s + Suc i))"
    using Suc.prems by (simp add: GetCellDataAt_nat nth_shiftPart del: of_nat_add of_nat_Suc)
  have wr: "Write b [orig ! (s + Suc i)] \<lparr>X = int (t + Suc i), Y = int y\<rparr> None = ?b"
    using Suc.prems shiftPart_step_down [of "Suc i" w orig s t] by (simp add: Write_single del: of_nat_add of_nat_Suc)
  have wf': "wfBuffer ?b"
    using Suc.prems by (simp add: wfBuffer_setRowCells length_shiftPart)
  have bw: "bufferWidth ?b = bufferWidth b"
    using Suc.prems by (simp add: bufferWidth_setRowCells length_shiftPart)
  have ih: "copyCells (FromDimensions \<lparr>X = int s, Y = int y\<rparr> \<lparr>X = int w, Y = 1\<rparr>)
           (FromDimensions \<lparr>X = int t, Y = int y\<rparr> \<lparr>X = int w, Y = 1\<rparr>) RightToLeft ?b
           \<lparr>X = int (s + i), Y = int y\<rparr> \<lparr>X = int (t + i), Y = int y\<rparr>
         = Inr (setRowCells ?b y (shiftPart orig s t 0 w))"
    using Suc.prems wf' bw
    by (intro Suc.IH) (simp_all add: storage_setRowCells cells_setRowCells)
  have wk: "WalkInBounds (FromDimensions \<lparr>X = int s, Y = int y\<rparr> \<lparr>X = int w, Y = 1\<rparr>)
     \<lparr>X = int (s + Suc i), Y = int y\<rparr> RightToLeft = Some \<lparr>X = int (s + i), Y = int y\<rparr>"
    using Suc.prems by (intro walk_right_to_left_Suc) auto
  have wk': "WalkInBounds (FromDimensions \<lparr>X = int t, Y = int y\<rparr> \<lparr>X = int w, Y = 1\<rparr>)
     \<lparr>X = int (t + Suc i), Y = int y\<rparr> RightToLeft = Some \<lparr>X = int (t + i), Y = int y\<rparr>"
    using Suc.prems by (intro walk_right_to_left_Suc) auto
  show ?case
    by (subst copyCells.simps)
      (simp only: rd wr wk wk' ih setRowCells_twice option.case)
qed

section \<open>The oracle on a one-row rectangle\<close>

lemma those_map_Some: "those (map (\<lambda>i. Some (f i)) xs) = Some (map f xs)"
  by (induction xs) simp_all

lemma readRun_row:
  assumes "y < length (storage b)" "s + w \<le> bufferWidth b"
  shows "readRun b (FromDimensions \<lparr>X = int s, Y = int y\<rparr> \<lparr>X = int w, Y = 1\<rparr>)
           = Some (map (\<lambda>j. cells (storage b ! y) ! (s + j)) [0..<w])"
proof -
  have form: "readRun b (FromDimensions \<lparr>X = int s, Y = int y\<rparr> \<lparr>X = int w, Y = 1\<rparr>)
      = those (map (\<lambda>i. GetCellDataAt b \<lparr>X = int s + int i, Y = int y\<rparr>) [0..<w])"
    by (simp add: readRun_def FromDimensions_def Left_def Top_def Width_def)
  have eq: "map (\<lambda>i. GetCellDataAt b \<lparr>X = int s + int i, Y = int y\<rparr>) [0..<w]
          = map (\<lambda>i. Some (cells (storage b ! y) ! (s + i))) [0..<w]"
  proof (rule map_cong [OF refl])
    fix i
    assume "i \<in> set [0..<w]"
    then have "s + i < bufferWidth b"
      using assms by simp
    then show "GetCellDataAt b \<lparr>X = int s + int i, Y = int y\<rparr>
                 = Some (cells (storage b ! y) ! (s + i))"
      using GetCellDataAt_nat [of "s + i" b y] assms by simp
  qed
  show ?thesis
    by (simp only: form eq those_map_Some)
qed

lemma writeRun_row:
  assumes "wfBuffer b" "y < length (storage b)" "length orig = bufferWidth b"
    and "i \<le> w" "cells (storage b ! y) = shiftPart orig s t 0 i"
  shows "writeRun b \<lparr>X = int (t + i), Y = int y\<rparr> (map (\<lambda>j. orig ! (s + j)) [i..<w])
           = setRowCells b y (shiftPart orig s t 0 w)"
  using assms
proof (induction k \<equiv> "w - i" arbitrary: i b)
  case 0
  then have "i = w" by simp
  with 0 show ?case
    using setRowCells_same [of b y] by simp
next
  case (Suc k)
  then have lt: "i < w" by simp
  let ?b = "setRowCells b y (shiftPart orig s t 0 (Suc i))"
  have wr: "Write b [orig ! (s + i)] \<lparr>X = int (t + i), Y = int y\<rparr> None = ?b"
    using Suc.prems by (simp add: Write_single shiftPart_step_up del: of_nat_add of_nat_Suc)
  have wf': "wfBuffer ?b"
    using Suc.prems by (simp add: wfBuffer_setRowCells length_shiftPart)
  have bw: "bufferWidth ?b = bufferWidth b"
    using Suc.prems by (simp add: bufferWidth_setRowCells length_shiftPart)
  have ih: "writeRun ?b \<lparr>X = int (t + Suc i), Y = int y\<rparr> (map (\<lambda>j. orig ! (s + j)) [Suc i..<w])
           = setRowCells ?b y (shiftPart orig s t 0 w)"
    using Suc.hyps(2) Suc.prems lt wf' bw
    by (intro Suc.hyps(1)) (simp_all add: storage_setRowCells cells_setRowCells)
  have run: "map (\<lambda>j. orig ! (s + j)) [i..<w]
               = orig ! (s + i) # map (\<lambda>j. orig ! (s + j)) [Suc i..<w]"
    using lt by (simp add: upt_conv_Cons)
  have pos: "\<lparr>X = int (t + i), Y = int y\<rparr>\<lparr>X := X \<lparr>X = int (t + i), Y = int y\<rparr> + 1\<rparr>
               = \<lparr>X = int (t + Suc i), Y = int y\<rparr>"
    by simp
  show ?case
    by (simp only: run writeRun.simps wr pos ih setRowCells_twice)
qed

section \<open>Insert and delete character against the oracle\<close>

lemma Left_FromDimensions: "Left (FromDimensions org d) = X org"
  by (simp add: Left_def FromDimensions_def)

lemma Top_FromDimensions: "Top (FromDimensions org d) = Y org"
  by (simp add: Top_def FromDimensions_def)

lemma Dimensions_FromDimensions: "Dimensions (FromDimensions org d) = d"
  by (simp add: Dimensions_def FromDimensions_def)

lemma Origin_FromDimensions: "Origin (FromDimensions org d) = org"
  by (simp add: Origin_def FromDimensions_def)

lemma RightInclusive_FromDimensions: "RightInclusive (FromDimensions org d) = X org + X d - 1"
  by (simp add: RightInclusive_def RightExclusive_def Left_def Width_def FromDimensions_def)

lemma RightExclusive_FromDimensions: "RightExclusive (FromDimensions org d) = X org + X d"
  by (simp add: RightExclusive_def Left_def Width_def FromDimensions_def)

text \<open>The cursor of a well-formed terminal, in natural numbers.\<close>

lemma wfTerminal_cursor:
  assumes "wfTerminal t"
  obtains x y r where
    "position (cursor (buffer t)) = \<lparr>X = int x, Y = int y\<rparr>"
    "RightExclusive (mutableViewport t) = int r"
    "x < r" "r \<le> bufferWidth (buffer t)" "bufferWidth (buffer t) \<le> 32767"
    "y < length (storage (buffer t))" "wfBuffer (buffer t)"
proof -
  let ?c = "position (cursor (buffer t))" and ?v = "mutableViewport t"
  have b: "0 \<le> X ?c" "X ?c < RightExclusive ?v" "0 \<le> Y ?c"
    "Y ?c < int (length (storage (buffer t)))"
    "RightExclusive ?v \<le> int (bufferWidth (buffer t))"
    "bufferWidth (buffer t) \<le> 32767" "wfBuffer (buffer t)"
    using assms by (auto simp: wfTerminal_def wfBuffer_def IsInBounds_def)
  have c: "?c = \<lparr>X = int (nat (X ?c)), Y = int (nat (Y ?c))\<rparr>"
    using b by simp
  show ?thesis
  proof (rule that [of "nat (X ?c)" "nat (Y ?c)" "nat (RightExclusive ?v)"])
    show "?c = \<lparr>X = int (nat (X ?c)), Y = int (nat (Y ?c))\<rparr>" by (rule c)
  qed (use b in auto)
qed

lemma DeleteCharacter_closed:
  assumes pos: "position (cursor (buffer t)) = \<lparr>X = int x, Y = int y\<rparr>"
    and r: "RightExclusive (mutableViewport t) = int r"
    and b: "x + n < r" "r \<le> bufferWidth (buffer t)" "bufferWidth (buffer t) \<le> 32767"
      "y < length (storage (buffer t))" "wfBuffer (buffer t)"
  shows "DeleteCharacter t n
           = Inr (t\<lparr>buffer := setRowCells (buffer t) y
                    (shiftPart (cells (storage (buffer t) ! y)) (x + n) x 0 (r - (x + n)))\<rparr>)"
proof -
  let ?orig = "cells (storage (buffer t) ! y)"
  let ?w = "r - (x + n)"
  let ?src = "FromDimensions \<lparr>X = int (x + n), Y = int y\<rparr> \<lparr>X = int ?w, Y = 1\<rparr>"
  let ?tgt = "FromDimensions \<lparr>X = int x, Y = int y\<rparr> \<lparr>X = int ?w, Y = 1\<rparr>"
  have d: "SizeTToShort n = Inr (int n)"
    using b by (simp add: SizeTToShort_def)
  have sx: "short_of (int x + int n) = int (x + n)"
    using b by (simp add: short_of_id)
  have uw: "UIntToShort (int r - int (x + n)) = Inr (int ?w)"
    using b by (simp add: UIntToShort_def Let_def)
  have dir: "DetermineWalkDirection ?src ?tgt = LeftToRight"
    by (simp add: DetermineWalkDirection_def Left_FromDimensions)
  have len: "length ?orig = bufferWidth (buffer t)"
    using b by (simp add: wf_row_length)
  have loop: "copyCells ?src ?tgt LeftToRight (buffer t)
                \<lparr>X = int (x + n), Y = int y\<rparr> \<lparr>X = int x, Y = int y\<rparr>
              = Inr (setRowCells (buffer t) y (shiftPart ?orig (x + n) x 0 ?w))"
    using copyCells_left_to_right [of "buffer t" y ?orig x "x + n" ?w 0] b len
    by (simp add: shiftPart_empty del: of_nat_add of_nat_diff)
  show ?thesis
    unfolding DeleteCharacter_def
    by (simp add: d pos r sx uw dir loop Let_def Dimensions_FromDimensions GetWalkOrigin_def
        Left_FromDimensions Top_FromDimensions del: of_nat_add of_nat_diff)
qed

lemma oracleCopy_closed:
  assumes "wfBuffer b" "y < length (storage b)" "s + w \<le> bufferWidth b"
  shows "oracleCopy b (FromDimensions \<lparr>X = int s, Y = int y\<rparr> \<lparr>X = int w, Y = 1\<rparr>)
           (FromDimensions \<lparr>X = int t, Y = int y\<rparr> \<lparr>X = int w, Y = 1\<rparr>)
         = Inr (setRowCells b y (shiftPart (cells (storage b ! y)) s t 0 w))"
proof -
  let ?orig = "cells (storage b ! y)"
  have len: "length ?orig = bufferWidth b"
    using assms by (simp add: wf_row_length)
  have wr: "writeRun b \<lparr>X = int t, Y = int y\<rparr> (map (\<lambda>j. ?orig ! (s + j)) [0..<w])
              = setRowCells b y (shiftPart ?orig s t 0 w)"
    using writeRun_row [of b y ?orig 0 w s t] assms len
    by (simp add: shiftPart_empty)
  show ?thesis
    using assms
    by (simp add: oracleCopy_def readRun_row Origin_FromDimensions wr)
qed

lemma oracleDeleteCharacter_closed:
  assumes pos: "position (cursor (buffer t)) = \<lparr>X = int x, Y = int y\<rparr>"
    and r: "RightExclusive (mutableViewport t) = int r"
    and b: "x + n < r" "r \<le> bufferWidth (buffer t)" "bufferWidth (buffer t) \<le> 32767"
      "y < length (storage (buffer t))" "wfBuffer (buffer t)"
  shows "oracleDeleteCharacter t n
           = Inr (t\<lparr>buffer := setRowCells (buffer t) y
                    (shiftPart (cells (storage (buffer t) ! y)) (x + n) x 0 (r - (x + n)))\<rparr>)"
proof -
  let ?w = "r - (x + n)"
  have src: "deleteSource t n = FromDimensions \<lparr>X = int (x + n), Y = int y\<rparr> \<lparr>X = int ?w, Y = 1\<rparr>"
    using b by (simp add: deleteSource_def pos r Let_def of_nat_diff)
  have tgt: "deleteTarget t n = FromDimensions \<lparr>X = int x, Y = int y\<rparr> \<lparr>X = int ?w, Y = 1\<rparr>"
    by (simp only: deleteTarget_def src Dimensions_FromDimensions pos)
  have "oracleCopy (buffer t) (deleteSource t n) (deleteTarget t n)
          = Inr (setRowCells (buffer t) y
                   (shiftPart (cells (storage (buffer t) ! y)) (x + n) x 0 ?w))"
    unfolding src tgt using b by (intro oracleCopy_closed) simp_all
  then show ?thesis
    by (simp add: oracleDeleteCharacter_def)
qed

lemma InsertCharacter_closed:
  assumes pos: "position (cursor (buffer t)) = \<lparr>X = int x, Y = int y\<rparr>"
    and r: "RightExclusive (mutableViewport t) = int r"
    and b: "x < r" "r \<le> bufferWidth (buffer t)" "bufferWidth (buffer t) \<le> 32767"
      "y < length (storage (buffer t))" "wfBuffer (buffer t)"
    and n: "x + n \<le> 32767"
  shows "InsertCharacter t n
           = Inr (t\<lparr>buffer :=
                    Write (setRowCells (buffer t) y
                             (shiftPart (cells (storage (buffer t) ! y)) x (x + n) 0 (r - x)))
                      (fillIterator UNICODE_SPACE (currentAttributes (buffer t)) n)
                      \<lparr>X = int x, Y = int y\<rparr> None\<rparr>)"
proof -
  let ?orig = "cells (storage (buffer t) ! y)"
  let ?w = "r - x"
  let ?src = "FromDimensions \<lparr>X = int x, Y = int y\<rparr> \<lparr>X = int ?w, Y = 1\<rparr>"
  let ?tgt = "FromDimensions \<lparr>X = int (x + n), Y = int y\<rparr> \<lparr>X = int ?w, Y = 1\<rparr>"
  let ?res = "setRowCells (buffer t) y (shiftPart ?orig x (x + n) 0 ?w)"
  have d: "SizeTToShort n = Inr (int n)"
    using n by (simp add: SizeTToShort_def)
  have sx: "short_of (int x + int n) = int (x + n)"
    using n by (simp add: short_of_id)
  have uw: "UIntToShort (int r - int x) = Inr (int ?w)"
    using b by (simp add: UIntToShort_def Let_def)
  have len: "length ?orig = bufferWidth (buffer t)"
    using b by (simp add: wf_row_length)
  have loop: "copyCells ?src ?tgt (DetermineWalkDirection ?src ?tgt) (buffer t)
                (GetWalkOrigin ?src (DetermineWalkDirection ?src ?tgt))
                (GetWalkOrigin ?tgt (DetermineWalkDirection ?src ?tgt)) = Inr ?res"
  proof (cases "n = 0")
    case True
    have dir: "DetermineWalkDirection ?src ?tgt = LeftToRight"
      using True by (simp add: DetermineWalkDirection_def Left_FromDimensions)
    have "copyCells ?src ?tgt LeftToRight (buffer t)
            \<lparr>X = int x, Y = int y\<rparr> \<lparr>X = int (x + n), Y = int y\<rparr> = Inr ?res"
      using copyCells_left_to_right [of "buffer t" y ?orig x x ?w 0] b len True
      by (simp add: shiftPart_empty del: of_nat_add of_nat_diff)
    then show ?thesis
      by (simp add: dir GetWalkOrigin_def Left_FromDimensions Top_FromDimensions
          del: of_nat_add of_nat_diff)
  next
    case False
    have dir: "DetermineWalkDirection ?src ?tgt = RightToLeft"
      using False by (simp add: DetermineWalkDirection_def Left_FromDimensions)
    have e1: "int x + int ?w - 1 = int (x + (?w - 1))"
      using b by simp
    have e2: "int (x + n) + int ?w - 1 = int (x + n + (?w - 1))"
      using b by simp
    have "copyCells ?src ?tgt RightToLeft (buffer t)
            \<lparr>X = int (x + (?w - 1)), Y = int y\<rparr> \<lparr>X = int (x + n + (?w - 1)), Y = int y\<rparr>
          = Inr ?res"
      using copyCells_right_to_left [of "buffer t" y ?orig x "x + n" ?w "?w - 1"] b len
      by (simp add: shiftPart_empty del: of_nat_add of_nat_diff)
    then show ?thesis
      by (simp add: dir GetWalkOrigin_def RightInclusive_FromDimensions Top_FromDimensions e1 e2
          del: of_nat_add of_nat_diff)
  qed
  show ?thesis
    unfolding InsertCharacter_def
    by (simp add: d pos r sx uw loop Let_def Dimensions_FromDimensions
        currentAttributes_setRowCells del: of_nat_add of_nat_diff)
qed

lemma oracleInsertCharacter_closed:
  assumes pos: "position (cursor (buffer t)) = \<lparr>X = int x, Y = int y\<rparr>"
    and r: "RightExclusive (mutableViewport t) = int r"
    and b: "x < r" "r \<le> bufferWidth (buffer t)"
      "y < length (storage (buffer t))" "wfBuffer (buffer t)"
  shows "oracleInsertCharacter t n
           = Inr (t\<lparr>buffer :=
                    Write (setRowCells (buffer t) y
                             (shiftPart (cells (storage (buffer t) ! y)) x (x + n) 0 (r - x)))
                      (fillIterator UNICODE_SPACE (currentAttributes (buffer t)) n)
                      \<lparr>X = int x, Y = int y\<rparr> None\<rparr>)"
proof -
  let ?w = "r - x"
  have src: "insertSource t = FromDimensions \<lparr>X = int x, Y = int y\<rparr> \<lparr>X = int ?w, Y = 1\<rparr>"
    using b by (simp add: insertSource_def pos r Let_def of_nat_diff)
  have tgt: "insertTarget t n = FromDimensions \<lparr>X = int (x + n), Y = int y\<rparr> \<lparr>X = int ?w, Y = 1\<rparr>"
    by (simp add: insertTarget_def src Dimensions_FromDimensions pos Let_def)
  have "oracleCopy (buffer t) (insertSource t) (insertTarget t n)
          = Inr (setRowCells (buffer t) y
                   (shiftPart (cells (storage (buffer t) ! y)) x (x + n) 0 ?w))"
    unfolding src tgt using b by (intro oracleCopy_closed) simp_all
  then show ?thesis
    by (simp add: oracleInsertCharacter_def pos currentAttributes_setRowCells)
qed

text \<open>Claim C1.  On a well-formed terminal, whenever the source and target one-row
  rectangles of DeleteCharacter(n), respectively InsertCharacter(m), overlap, the
  direction-aware cell-by-cell copy returns without error and returns exactly what
  the oracle returns, which first reads the whole source run into a temporary list
  and then writes that list to the target run (followed, for the insert, by the same
  blank fill).\<close>

theorem InsertDelete_overlap_safe:
  assumes "wfTerminal t"
  shows "(rectsOverlap (deleteSource t n) (deleteTarget t n)
            \<longrightarrow> DeleteCharacter t n = oracleDeleteCharacter t n \<and> \<not> isl (DeleteCharacter t n))
       \<and> (rectsOverlap (insertSource t) (insertTarget t m)
            \<longrightarrow> InsertCharacter t m = oracleInsertCharacter t m \<and> \<not> isl (InsertCharacter t m))"
proof -
  from assms obtain x y r where
    pos: "position (cursor (buffer t)) = \<lparr>X = int x, Y = int y\<rparr>"
    and r: "RightExclusive (mutableViewport t) = int r"
    and b: "x < r" "r \<le> bufferWidth (buffer t)" "bufferWidth (buffer t) \<le> 32767"
      "y < length (storage (buffer t))" "wfBuffer (buffer t)"
    by (rule wfTerminal_cursor)
  have del: "DeleteCharacter t n = oracleDeleteCharacter t n \<and> \<not> isl (DeleteCharacter t n)"
    if "rectsOverlap (deleteSource t n) (deleteTarget t n)"
  proof -
    from that have "x + n < r"
      by (simp add: rectsOverlap_def deleteSource_def deleteTarget_def pos r Let_def
          Left_FromDimensions Dimensions_FromDimensions RightExclusive_FromDimensions)
    then show ?thesis
      using DeleteCharacter_closed [OF pos r _ b(2-5), of n]
        oracleDeleteCharacter_closed [OF pos r _ b(2-5), of n]
      by simp
  qed
  have ins: "InsertCharacter t m = oracleInsertCharacter t m \<and> \<not> isl (InsertCharacter t m)"
    if "rectsOverlap (insertSource t) (insertTarget t m)"
  proof -
    from that have "x + m < r"
      by (simp add: rectsOverlap_def insertSource_def insertTarget_def pos r Let_def
          Left_FromDimensions Dimensions_FromDimensions RightExclusive_FromDimensions)
    then have "x + m \<le> 32767"
      using b by simp
    then show ?thesis
      using InsertCharacter_closed [OF pos r b, of m]
        oracleInsertCharacter_closed [OF pos r b(1,2,4,5), of m]
      by simp
  qed
  show ?thesis
    using del ins by blast
qed

lemmas wf_eval_defs = wfTerminal_def wfBuffer_def bufferWidth_def rectsOverlap_def
  deleteSource_def deleteTarget_def insertSource_def insertTarget_def

theorem InsertDelete_overlap_safe_witness:
  "DeleteCharacter (exampleTerminal [''abcdefgh''] 2 0 0 0 8 1) 1
     = oracleDeleteCharacter (exampleTerminal [''abcdefgh''] 2 0 0 0 8 1) 1
   \<and> rowText (DeleteCharacter (exampleTerminal [''abcdefgh''] 2 0 0 0 8 1) 1) 0 = ''abdefghh''
   \<and> InsertCharacter (exampleTerminal [''abcdefgh''] 2 0 0 0 8 1) 2
     = oracleInsertCharacter (exampleTerminal [''abcdefgh''] 2 0 0 0 8 1) 2
   \<and> rowText (InsertCharacter (exampleTerminal [''abcdefgh''] 2 0 0 0 8 1) 2) 0 = ''ab  cdef''"
proof -
  have wf: "wfTerminal (exampleTerminal [''abcdefgh''] 2 0 0 0 8 1)"
    by (simp add: wf_eval_defs eval_defs)
  have o1: "rectsOverlap (deleteSource (exampleTerminal [''abcdefgh''] 2 0 0 0 8 1) 1)
              (deleteTarget (exampleTerminal [''abcdefgh''] 2 0 0 0 8 1) 1)"
    by (simp add: wf_eval_defs eval_defs)
  have o2: "rectsOverlap (insertSource (exampleTerminal [''abcdefgh''] 2 0 0 0 8 1))
              (insertTarget (exampleTerminal [''abcdefgh''] 2 0 0 0 8 1) 2)"
    by (simp add: wf_eval_defs eval_defs)
  have t1: "rowText (DeleteCharacter (exampleTerminal [''abcdefgh''] 2 0 0 0 8 1) 1) 0 = ''abdefghh''"
    by (simp add: rowText_def eval_defs)
  have t2: "rowText (InsertCharacter (exampleTerminal [''abcdefgh''] 2 0 0 0 8 1) 2) 0 = ''ab  cdef''"
    by (simp add: rowText_def eval_defs)
  show ?thesis
    using InsertDelete_overlap_safe [OF wf, of 1 2] o1 o2 t1 t2 by simp
qed

section \<open>Counts beyond the right edge\<close>

lemma UIntToShort_negative:
  "- 2147483648 \<le> i \<Longrightarrow> i < 0 \<Longrightarrow> UIntToShort i = Inl INTSAFE_E_ARITHMETIC_OVERFLOW"
proof -
  assume a: "- 2147483648 \<le> i" "i < 0"
  have "i mod 4294967296 = i + 4294967296"
    using a by (intro mod_pos_pos_trivial [of "i + 4294967296" 4294967296, simplified]) auto
  then show ?thesis
    using a by (simp add: UIntToShort_def Let_def)
qed

lemma short_of_wrap:
  assumes "32767 < i" "i \<le> 98303"
  shows "short_of i = i - 65536"
proof -
  have e: "i + 32768 = i - 32768 + 65536"
    by simp
  have "(i + 32768) mod 65536 = (i - 32768) mod 65536"
    by (simp only: e mod_add_self2)
  also have "\<dots> = i - 32768"
    using assms by (intro mod_pos_pos_trivial) simp_all
  finally show ?thesis
    by (simp add: short_of_def)
qed

lemma UIntToShort_large:
  "32767 < i \<Longrightarrow> i < 4294967296 \<Longrightarrow> UIntToShort i = Inl INTSAFE_E_ARITHMETIC_OVERFLOW"
  by (simp add: UIntToShort_def Let_def)

lemma DeleteCharacter_beyond_edge:
  assumes pos: "position (cursor (buffer t)) = \<lparr>X = int x, Y = int y\<rparr>"
    and r: "RightExclusive (mutableViewport t) = int r"
    and b: "x < r" "r \<le> 32767" "r < x + n"
  shows "DeleteCharacter t n = Inl INTSAFE_E_ARITHMETIC_OVERFLOW"
proof (cases "n \<le> 32767")
  case False
  then show ?thesis
    by (simp add: DeleteCharacter_def SizeTToShort_def)
next
  case True
  then have d: "SizeTToShort n = Inr (int n)"
    by (simp add: SizeTToShort_def)
  have "UIntToShort (int r - short_of (int x + int n)) = Inl INTSAFE_E_ARITHMETIC_OVERFLOW"
  proof (cases "x + n \<le> 32767")
    case True
    then have "short_of (int x + int n) = int x + int n"
      by (simp add: short_of_id)
    then show ?thesis
      using b True by (simp add: UIntToShort_negative)
  next
    case False
    then have "short_of (int x + int n) = int x + int n - 65536"
      using b \<open>n \<le> 32767\<close> by (intro short_of_wrap) simp_all
    then show ?thesis
      using b \<open>n \<le> 32767\<close> False by (simp add: UIntToShort_large)
  qed
  then show ?thesis
    by (simp add: DeleteCharacter_def d pos r Let_def)
qed

text \<open>A left-to-right copy whose target run lies left of column 0 writes nothing.\<close>

lemma copyCells_dropped:
  assumes "y < length (storage b)" "s + w \<le> bufferWidth b" "i < w" "tneg + int w \<le> 0"
  shows "copyCells (FromDimensions \<lparr>X = int s, Y = int y\<rparr> \<lparr>X = int w, Y = 1\<rparr>)
           (FromDimensions \<lparr>X = tneg, Y = int y\<rparr> \<lparr>X = int w, Y = 1\<rparr>) LeftToRight b
           \<lparr>X = int (s + i), Y = int y\<rparr> \<lparr>X = tneg + int i, Y = int y\<rparr>
         = Inr b"
  using assms
proof (induction k \<equiv> "w - Suc i" arbitrary: i)
  case 0
  then have w: "w = Suc i" by simp
  have rd: "GetCellDataAt b \<lparr>X = int (s + i), Y = int y\<rparr> = Some (cells (storage b ! y) ! (s + i))"
    using 0 by (simp add: GetCellDataAt_nat del: of_nat_add of_nat_Suc)
  have wr: "Write b [cells (storage b ! y) ! (s + i)] \<lparr>X = tneg + int i, Y = int y\<rparr> None = b"
    using 0 by (intro Write_outside) simp
  show ?case
    by (subst copyCells.simps) (simp add: rd wr walk_left_to_right w del: of_nat_add of_nat_Suc)
next
  case (Suc k)
  then have lt: "Suc i < w" by simp
  have rd: "GetCellDataAt b \<lparr>X = int (s + i), Y = int y\<rparr> = Some (cells (storage b ! y) ! (s + i))"
    using Suc.prems by (simp add: GetCellDataAt_nat del: of_nat_add of_nat_Suc)
  have wr: "Write b [cells (storage b ! y) ! (s + i)] \<lparr>X = tneg + int i, Y = int y\<rparr> None = b"
    using Suc.prems by (intro Write_outside) simp
  have wk: "WalkInBounds (FromDimensions \<lparr>X = int s, Y = int y\<rparr> \<lparr>X = int w, Y = 1\<rparr>)
     \<lparr>X = int (s + i), Y = int y\<rparr> LeftToRight = Some \<lparr>X = int (s + Suc i), Y = int y\<rparr>"
    using lt by (simp only: walk_left_to_right if_True)
  have wk': "WalkInBounds (FromDimensions \<lparr>X = tneg, Y = int y\<rparr> \<lparr>X = int w, Y = 1\<rparr>)
     \<lparr>X = tneg + int i, Y = int y\<rparr> LeftToRight = Some \<lparr>X = tneg + int (Suc i), Y = int y\<rparr>"
    using lt
    by (auto simp: WalkInBounds_def FromDimensions_def IsInBounds_def Left_def Top_def Width_def
        Height_def RightExclusive_def BottomExclusive_def Let_def)
  have ih: "copyCells (FromDimensions \<lparr>X = int s, Y = int y\<rparr> \<lparr>X = int w, Y = 1\<rparr>)
           (FromDimensions \<lparr>X = tneg, Y = int y\<rparr> \<lparr>X = int w, Y = 1\<rparr>) LeftToRight b
           \<lparr>X = int (s + Suc i), Y = int y\<rparr> \<lparr>X = tneg + int (Suc i), Y = int y\<rparr>
         = Inr b"
    using Suc.hyps(2) Suc.prems lt by (intro Suc.hyps(1)) simp_all
  show ?case
    by (subst copyCells.simps) (simp only: rd wr wk wk' ih option.case)
qed

lemma shiftPart_past_end: "length orig \<le> t \<Longrightarrow> shiftPart orig s t lo hi = orig"
  by (rule nth_equalityI) (auto simp: length_shiftPart nth_shiftPart)

text \<open>With a count beyond the right edge, where the viewport ends at the buffer's right
  edge, the shift phase of InsertCharacter changes nothing: what remains is the blank
  fill.\<close>

lemma InsertCharacter_beyond_edge:
  assumes pos: "position (cursor (buffer t)) = \<lparr>X = int x, Y = int y\<rparr>"
    and r: "RightExclusive (mutableViewport t) = int (bufferWidth (buffer t))"
    and b: "x < bufferWidth (buffer t)" "bufferWidth (buffer t) \<le> 32767"
      "y < length (storage (buffer t))" "wfBuffer (buffer t)"
    and n: "bufferWidth (buffer t) < x + n" "n \<le> 32767"
  shows "InsertCharacter t n
           = Inr (t\<lparr>buffer := Write (buffer t)
                    (fillIterator UNICODE_SPACE (currentAttributes (buffer t)) n)
                    \<lparr>X = int x, Y = int y\<rparr> None\<rparr>)"
proof (cases "x + n \<le> 32767")
  case True
  have len: "length (cells (storage (buffer t) ! y)) = bufferWidth (buffer t)"
    using b by (simp add: wf_row_length)
  have "shiftPart (cells (storage (buffer t) ! y)) x (x + n) 0 (bufferWidth (buffer t) - x)
          = cells (storage (buffer t) ! y)"
    using n len by (intro shiftPart_past_end) simp
  then show ?thesis
    using InsertCharacter_closed [OF pos r b(1) _ b(2-4) True]
    by (simp add: setRowCells_same)
next
  case False
  let ?w = "bufferWidth (buffer t) - x"
  let ?tneg = "int x + int n - 65536"
  let ?src = "FromDimensions \<lparr>X = int x, Y = int y\<rparr> \<lparr>X = int ?w, Y = 1\<rparr>"
  let ?tgt = "FromDimensions \<lparr>X = ?tneg, Y = int y\<rparr> \<lparr>X = int ?w, Y = 1\<rparr>"
  have d: "SizeTToShort n = Inr (int n)"
    using n by (simp add: SizeTToShort_def)
  have sx: "short_of (int x + int n) = ?tneg"
    using False b n by (intro short_of_wrap) simp_all
  have uw: "UIntToShort (int (bufferWidth (buffer t)) - int x) = Inr (int ?w)"
    using b by (simp add: UIntToShort_def Let_def)
  have dir: "DetermineWalkDirection ?src ?tgt = LeftToRight"
    using b n by (simp add: DetermineWalkDirection_def Left_FromDimensions)
  have loop: "copyCells ?src ?tgt LeftToRight (buffer t)
                \<lparr>X = int x, Y = int y\<rparr> \<lparr>X = ?tneg, Y = int y\<rparr> = Inr (buffer t)"
    using copyCells_dropped [of y "buffer t" x ?w 0 ?tneg] b n by simp
  show ?thesis
    unfolding InsertCharacter_def
    by (simp add: d pos r sx uw dir loop Let_def Dimensions_FromDimensions GetWalkOrigin_def
        Left_FromDimensions Top_FromDimensions del: of_nat_add of_nat_diff)
qed

lemma length_WriteRows: "length (WriteRows rs it x w) = length rs"
  by (induction rs arbitrary: it x) simp_all

lemma Write_fill_row:
  assumes "wfBuffer b" "y < length (storage b)" "x < bufferWidth b" "bufferWidth b \<le> x + n"
  shows "take y (storage (Write b (replicate n c) \<lparr>X = int x, Y = int y\<rparr> None)) = take y (storage b)"
    and "cells (storage (Write b (replicate n c) \<lparr>X = int x, Y = int y\<rparr> None) ! y)
           = take x (cells (storage b ! y)) @ replicate (bufferWidth b - x) c"
    and "length (storage (Write b (replicate n c) \<lparr>X = int x, Y = int y\<rparr> None))
           = length (storage b)"
proof -
  let ?st = "storage b"
  have len: "length (cells (?st ! y)) = bufferWidth b"
    using assms by (simp add: wf_row_length)
  have dr: "drop y ?st = ?st ! y # drop (Suc y) ?st"
    using assms(2) by (simp add: Cons_nth_drop_Suc)
  have n: "0 < n" using assms by simp
  have st: "storage (Write b (replicate n c) \<lparr>X = int x, Y = int y\<rparr> None)
              = take y ?st @ WriteRows (drop y ?st) (replicate n c) x None"
    using assms by (simp add: Write_def IsInBounds_GetSize)
  show "take y (storage (Write b (replicate n c) \<lparr>X = int x, Y = int y\<rparr> None)) = take y ?st"
    using assms(2) by (simp add: st)
  have a: "(take y ?st @ WriteRows (drop y ?st) (replicate n c) x None) ! y
          = WriteLine (?st ! y) (replicate n c) x None"
    using assms(2) n by (simp add: nth_append dr)
  have m: "min n (bufferWidth b - x) = bufferWidth b - x"
    using assms by simp
  have c: "cells (WriteLine (?st ! y) (replicate n c) x None)
          = take x (cells (?st ! y)) @ replicate (bufferWidth b - x) c"
    using assms len by (simp add: WriteLine_def Let_def m)
  show "cells (storage (Write b (replicate n c) \<lparr>X = int x, Y = int y\<rparr> None) ! y)
           = take x (cells (?st ! y)) @ replicate (bufferWidth b - x) c"
    by (simp only: st a c)
  show "length (storage (Write b (replicate n c) \<lparr>X = int x, Y = int y\<rparr> None)) = length ?st"
    using assms(2) by (simp add: st length_WriteRows)
qed

text \<open>Claim C3, as stated, fails for DeleteCharacter: with the cursor in column 2 of a
  five-column viewport three cells remain, and DeleteCharacter(4) does not complete;
  the negative source width is refused by the conversion to \<^verbatim>\<open>SHORT\<close> of line 99.\<close>

theorem DeleteCharacter_beyond_edge_fails:
  "DeleteCharacter (exampleTerminal [''abcde''] 2 0 0 0 5 1) 4 = Inl INTSAFE_E_ARITHMETIC_OVERFLOW
   \<and> wfTerminal (exampleTerminal [''abcde''] 2 0 0 0 5 1)"
  by (simp add: example_wf_abcde) (simp add: eval_defs)

text \<open>Claim C3, amended.  On a well-formed terminal, for a count that exceeds the
  remaining row width between the cursor and the viewport's right edge:
  DeleteCharacter fails with the arithmetic-overflow error, before anything is
  written.  InsertCharacter fails in the same way when the count does not fit a
  \<^verbatim>\<open>SHORT\<close>; otherwise, where the viewport ends at the buffer's right edge, it
  completes without error, the rows above the cursor's row and the cells left of the
  cursor are unchanged, the cells from the cursor to the right edge are blank with the
  current attribute (every shifted cell lands past the right edge and is dropped), and
  neither the cursor nor the viewport moves.\<close>

theorem InsertDelete_beyond_edge:
  assumes "wfTerminal t"
    and "RightExclusive (mutableViewport t) - X (position (cursor (buffer t))) < int n"
  shows "DeleteCharacter t n = Inl INTSAFE_E_ARITHMETIC_OVERFLOW
    \<and> (32767 < n \<longrightarrow> InsertCharacter t n = Inl INTSAFE_E_ARITHMETIC_OVERFLOW)
    \<and> (n \<le> 32767 \<and> RightExclusive (mutableViewport t) = int (bufferWidth (buffer t)) \<longrightarrow>
         \<not> isl (InsertCharacter t n)
         \<and> take (nat (Y (position (cursor (buffer t)))))
               (storage (buffer (projr (InsertCharacter t n))))
             = take (nat (Y (position (cursor (buffer t))))) (storage (buffer t))
         \<and> cells (storage (buffer (projr (InsertCharacter t n)))
                    ! nat (Y (position (cursor (buffer t)))))
             = take (nat (X (position (cursor (buffer t)))))
                  (cells (storage (buffer t) ! nat (Y (position (cursor (buffer t))))))
               @ replicate (bufferWidth (buffer t) - nat (X (position (cursor (buffer t)))))
                   \<lparr>glyph = UNICODE_SPACE, attr = currentAttributes (buffer t)\<rparr>
         \<and> cursor (buffer (projr (InsertCharacter t n))) = cursor (buffer t)
         \<and> mutableViewport (projr (InsertCharacter t n)) = mutableViewport t)"
proof -
  from assms(1) obtain x y r where
    pos: "position (cursor (buffer t)) = \<lparr>X = int x, Y = int y\<rparr>"
    and r: "RightExclusive (mutableViewport t) = int r"
    and b: "x < r" "r \<le> bufferWidth (buffer t)" "bufferWidth (buffer t) \<le> 32767"
      "y < length (storage (buffer t))" "wfBuffer (buffer t)"
    by (rule wfTerminal_cursor)
  have n: "r < x + n"
    using assms(2) by (simp add: pos r)
  have del: "DeleteCharacter t n = Inl INTSAFE_E_ARITHMETIC_OVERFLOW"
    using b n by (intro DeleteCharacter_beyond_edge [OF pos r]) simp_all
  have big: "InsertCharacter t n = Inl INTSAFE_E_ARITHMETIC_OVERFLOW" if "32767 < n"
    using that by (simp add: InsertCharacter_def SizeTToShort_def)
  have ins: "\<not> isl (InsertCharacter t n)
         \<and> take y (storage (buffer (projr (InsertCharacter t n)))) = take y (storage (buffer t))
         \<and> cells (storage (buffer (projr (InsertCharacter t n))) ! y)
             = take x (cells (storage (buffer t) ! y))
               @ replicate (bufferWidth (buffer t) - x)
                   \<lparr>glyph = UNICODE_SPACE, attr = currentAttributes (buffer t)\<rparr>
         \<and> cursor (buffer (projr (InsertCharacter t n))) = cursor (buffer t)
         \<and> mutableViewport (projr (InsertCharacter t n)) = mutableViewport t"
    if le: "n \<le> 32767" and edge: "RightExclusive (mutableViewport t) = int (bufferWidth (buffer t))"
  proof -
    have rw: "r = bufferWidth (buffer t)"
      using r edge by simp
    let ?c = "\<lparr>glyph = UNICODE_SPACE, attr = currentAttributes (buffer t)\<rparr>"
    have res: "InsertCharacter t n
                 = Inr (t\<lparr>buffer := Write (buffer t) (replicate n ?c) \<lparr>X = int x, Y = int y\<rparr> None\<rparr>)"
      using InsertCharacter_beyond_edge [OF pos edge _ b(3-5) _ le] b n
      by (simp add: rw fillIterator_def)
    have fill: "take y (storage (Write (buffer t) (replicate n ?c) \<lparr>X = int x, Y = int y\<rparr> None))
                  = take y (storage (buffer t))"
      "cells (storage (Write (buffer t) (replicate n ?c) \<lparr>X = int x, Y = int y\<rparr> None) ! y)
         = take x (cells (storage (buffer t) ! y)) @ replicate (bufferWidth (buffer t) - x) ?c"
      using Write_fill_row [of "buffer t" y x n ?c] b n by (simp_all add: rw)
    have cur: "cursor (Write (buffer t) (replicate n ?c) \<lparr>X = int x, Y = int y\<rparr> None)
                 = cursor (buffer t)"
      by (simp add: Write_def)
    show ?thesis
      by (simp add: res fill cur)
  qed
  show ?thesis
    using del big ins by (simp add: pos)
qed

theorem InsertDelete_beyond_edge_witness:
  "DeleteCharacter (exampleTerminal [''abcde'', ''fghij''] 2 0 0 0 5 2) 4
     = Inl INTSAFE_E_ARITHMETIC_OVERFLOW
   \<and> \<not> isl (InsertCharacter (exampleTerminal [''abcde'', ''fghij''] 2 0 0 0 5 2) 4)
   \<and> cells (storage (buffer (projr
        (InsertCharacter (exampleTerminal [''abcde'', ''fghij''] 2 0 0 0 5 2) 4))) ! 0)
      = cells (attrRow ''ab   '' [1, 2, 99, 99, 99])
   \<and> InsertCharacter (exampleTerminal [''abcde'', ''fghij''] 2 0 0 0 5 2) 40000
     = Inl INTSAFE_E_ARITHMETIC_OVERFLOW"
proof -
  have wf: "wfTerminal (exampleTerminal [''abcde'', ''fghij''] 2 0 0 0 5 2)"
    by (simp add: wf_eval_defs eval_defs BottomExclusive_def)
  have h: "RightExclusive (mutableViewport (exampleTerminal [''abcde'', ''fghij''] 2 0 0 0 5 2))
             - X (position (cursor (buffer (exampleTerminal [''abcde'', ''fghij''] 2 0 0 0 5 2))))
           < int 4"
    by (simp add: eval_defs)
  have e: "RightExclusive (mutableViewport (exampleTerminal [''abcde'', ''fghij''] 2 0 0 0 5 2))
             = int (bufferWidth (buffer (exampleTerminal [''abcde'', ''fghij''] 2 0 0 0 5 2)))"
    by (simp add: eval_defs bufferWidth_def)
  have h': "RightExclusive (mutableViewport (exampleTerminal [''abcde'', ''fghij''] 2 0 0 0 5 2))
             - X (position (cursor (buffer (exampleTerminal [''abcde'', ''fghij''] 2 0 0 0 5 2))))
           < int 40000"
    by (simp add: eval_defs)
  have big: "InsertCharacter (exampleTerminal [''abcde'', ''fghij''] 2 0 0 0 5 2) 40000
     = Inl INTSAFE_E_ARITHMETIC_OVERFLOW"
    using InsertDelete_beyond_edge [OF wf h'] by simp
  show ?thesis
    using InsertDelete_beyond_edge [OF wf h] e big
    by (simp add: eval_defs bufferWidth_def)
qed

section \<open>Erasing the scrollback\<close>




lemma scanRowsBack_bound: "scanRowsBack rs l w = Some (x, y) \<Longrightarrow> y < length rs"
  by (induction rs) (auto split: option.splits)


lemma wfTerminal_viewport:
  assumes "wfTerminal t"
  obtains tp h where
    "Top (mutableViewport t) = int tp" "Height (mutableViewport t) = int h" "0 < h"
    "tp + h \<le> length (storage (buffer t))" "length (storage (buffer t)) \<le> 32767"
    "0 \<le> Left (mutableViewport t)" "Left (mutableViewport t) \<le> 32767"
proof -
  let ?v = "mutableViewport t"
  have b: "0 \<le> Top ?v" "0 < Height ?v" "Top ?v + Height ?v \<le> int (length (storage (buffer t)))"
    "length (storage (buffer t)) \<le> 32767" "0 \<le> Left ?v" "Left ?v \<le> 32767"
    using assms by (auto simp: wfTerminal_def wfBuffer_def BottomExclusive_def RightExclusive_def)
  show ?thesis
    by (rule that [of "nat (Top ?v)" "nat (Height ?v)"]) (use b in auto)
qed


subsection \<open>Blank rows and the last-non-blank query\<close>

lemma scanCellsBack_None: "scanCellsBack cs = None \<longleftrightarrow> list_all (\<lambda>c. glyph c = UNICODE_SPACE) cs"
  by (induction cs) simp_all

lemma scan_blankSegment:
  "scanCellsBack (rev (rowSegment r l w)) = None \<longleftrightarrow> blankSegment r l w"
  by (simp add: scanCellsBack_None blankSegment_def list_all_iff)

lemma scanRowsBack_None:
  "scanRowsBack rs l w = None \<longleftrightarrow> list_all (\<lambda>r. blankSegment r l w) rs"
  by (induction rs) (auto simp flip: scan_blankSegment split: option.splits)

lemma scanRowsBack_rev_Some:
  "scanRowsBack (rev rows) l w = Some (x, y) \<Longrightarrow>
   y < length rows \<and> list_all (\<lambda>r. blankSegment r l w) (drop (Suc y) rows)"
proof (induction rows rule: rev_induct)
  case Nil
  then show ?case by simp
next
  case (snoc r rs)
  show ?case
  proof (cases "scanCellsBack (rev (rowSegment r l w))")
    case None
    then have "scanRowsBack (rev rs) l w = Some (x, y)"
      using snoc.prems by simp
    then have "y < length rs" "list_all (\<lambda>r. blankSegment r l w) (drop (Suc y) rs)"
      using snoc.IH by simp_all
    moreover have "blankSegment r l w"
      using None by (simp add: scan_blankSegment)
    ultimately show ?thesis by simp
  next
    case (Some a)
    then have "y = length rs"
      using snoc.prems by simp
    then show ?thesis by simp
  qed
qed

lemma blankSegment_Reset: "blankSegment (Reset r a) l w"
  by (simp add: blankSegment_def rowSegment_def Reset_def list_all_iff)

subsection \<open>The viewport after the erase\<close>





section \<open>Erasing the display twice\<close>

lemma circleLoop_done: "delta \<le> i \<Longrightarrow> circleLoop i delta b s = (b, s)"
  by (subst circleLoop.simps) simp

lemma circleLoop_closed:
  "- 32768 \<le> s - int k \<Longrightarrow> s \<le> 32767 \<Longrightarrow>
   circleLoop i (i + int k) b s = ((IncrementCircularBuffer ^^ k) b, s - int k)"
proof (induction k arbitrary: i b s)
  case 0
  then show ?case by (simp add: circleLoop_done)
next
  case (Suc k)
  have s1: "short_of (s - 1) = s - 1"
    using Suc.prems by (simp add: short_of_id)
  have "circleLoop (i + 1) (i + 1 + int k) (IncrementCircularBuffer b) (s - 1)
          = ((IncrementCircularBuffer ^^ k) (IncrementCircularBuffer b), s - 1 - int k)"
    using Suc.prems by (intro Suc.IH) simp_all
  then show ?case
    by (subst circleLoop.simps) (simp add: s1 funpow_swap1 algebra_simps)
qed

lemma Increment_step:
  "storage b = r # rs \<Longrightarrow>
   IncrementCircularBuffer b = b\<lparr>storage := rs @ [Reset r (currentAttributes b)]\<rparr>"
  by (simp add: IncrementCircularBuffer_def)

lemma Increment_iterate:
  "d \<le> length (storage b) \<Longrightarrow>
   storage ((IncrementCircularBuffer ^^ d) b)
     = drop d (storage b) @ map (\<lambda>r. Reset r (currentAttributes b)) (take d (storage b))
   \<and> currentAttributes ((IncrementCircularBuffer ^^ d) b) = currentAttributes b
   \<and> cursor ((IncrementCircularBuffer ^^ d) b) = cursor b"
proof (induction d)
  case 0
  then show ?case by simp
next
  case (Suc d)
  let ?b = "(IncrementCircularBuffer ^^ d) b"
  have ih: "storage ?b = drop d (storage b) @ map (\<lambda>r. Reset r (currentAttributes b)) (take d (storage b))"
    "currentAttributes ?b = currentAttributes b" "cursor ?b = cursor b"
    using Suc by simp_all
  have dr: "drop d (storage b) = storage b ! d # drop (Suc d) (storage b)"
    using Suc.prems by (simp add: Cons_nth_drop_Suc)
  have tk: "take (Suc d) (storage b) = take d (storage b) @ [storage b ! d]"
    using Suc.prems by (simp add: take_Suc_conv_app_nth)
  have "storage ?b = storage b ! d
          # (drop (Suc d) (storage b) @ map (\<lambda>r. Reset r (currentAttributes b)) (take d (storage b)))"
    by (simp add: ih dr)
  then have "IncrementCircularBuffer ?b
      = ?b\<lparr>storage := (drop (Suc d) (storage b)
                           @ map (\<lambda>r. Reset r (currentAttributes b)) (take d (storage b)))
                          @ [Reset (storage b ! d) (currentAttributes ?b)]\<rparr>"
    by (rule Increment_step)
  moreover have "(IncrementCircularBuffer ^^ Suc d) b = IncrementCircularBuffer ?b"
    by simp
  ultimately show ?case
    by (simp add: ih tk)
qed

lemma EraseAll_nothing:
  "X (GetLastNonSpaceCharacter (buffer t) (mutableViewport t)) = 0 \<Longrightarrow>
   Y (GetLastNonSpaceCharacter (buffer t) (mutableViewport t)) = 0 \<Longrightarrow>
   EraseInDisplay t EraseAll = (True, t)"
  by (simp add: EraseInDisplay_def Let_def)

lemma EraseAll_moves:
  assumes v: "Top (mutableViewport t) = int tp" "Height (mutableViewport t) = int h" "0 < h"
      "tp + h \<le> length (storage (buffer t))" "length (storage (buffer t)) \<le> 32767"
    and scan: "scanRowsBack (rev (take h (drop tp (storage (buffer t)))))
                 (nat (Left (mutableViewport t))) (nat (Width (mutableViewport t))) = Some (x, y)"
    and nz: "\<not> (Left (mutableViewport t) + int x = 0 \<and> int tp + int y = 0)"
  shows "EraseInDisplay t EraseAll
    = (True,
       SetCursorPosition
         (NotifyScrollEvent
            (t\<lparr>buffer := (IncrementCircularBuffer ^^ (tp + y + 1 + h - length (storage (buffer t))))
                             (buffer t),
               mutableViewport :=
                 \<lparr>origin = \<lparr>X = Left (mutableViewport t),
                             Y = int (tp + y + 1 - (tp + y + 1 + h - length (storage (buffer t))))\<rparr>,
                  dimensions = dimensions (mutableViewport t)\<rparr>\<rparr>))
         (X (ConvertToOrigin (mutableViewport t) (position (cursor (buffer t)))))
         (Y (ConvertToOrigin (mutableViewport t) (position (cursor (buffer t))))))"
proof -
  let ?v = "mutableViewport t"
  let ?H = "length (storage (buffer t))"
  let ?c = "GetLastNonSpaceCharacter (buffer t) ?v"
  define n where "n = tp + y + 1"
  define d where "d = n + h - ?H"
  have y: "y < h"
    using scanRowsBack_bound [OF scan] by simp
  have n: "0 < n" "n \<le> tp + h" "n \<le> ?H" "d \<le> n" "d \<le> h" "n - d + h \<le> ?H"
    using v y by (simp_all add: n_def d_def)
  have glc: "?c = \<lparr>X = Left ?v + int x, Y = int tp + int y\<rparr>"
    by (simp add: GetLastNonSpaceCharacter_def v scan)
  have nz': "(X ?c = 0 \<and> Y ?c = 0) \<longleftrightarrow> False"
    using nz by (simp add: glc)
  have ny: "short_of (Y ?c + 1) = int n"
    using v n by (simp add: glc n_def short_of_id)
  have dl: "short_of (int n + int h - int ?H) = int n + int h - int ?H"
    using v n by (intro short_of_id) simp_all
  have circle: "circleLoop 0 (int n + int h - int ?H) (buffer t) (int n)
                  = ((IncrementCircularBuffer ^^ d) (buffer t), int (n - d))"
  proof (cases "n + h \<le> ?H")
    case True
    then show ?thesis
      by (simp add: circleLoop_done d_def)
  next
    case False
    then have e: "int n + int h - int ?H = 0 + int d"
      by (simp add: d_def)
    have "circleLoop 0 (0 + int d) (buffer t) (int n)
            = ((IncrementCircularBuffer ^^ d) (buffer t), int n - int d)"
      using v n by (intro circleLoop_closed) simp_all
    moreover have "int n - int d = int (n - d)"
      using n by simp
    ultimately show ?thesis
      by (simp only: e)
  qed
  have "int (n - d) + int h = int (n - d + h)"
    by simp
  then have nb: "short_of (int (n - d) + int h) = int (n - d) + int h"
    using v n by (intro short_of_id) simp_all
  have vp: "FromExclusive \<lparr>srLeft = Left ?v, srTop = int (n - d), srRight = RightExclusive ?v,
                srBottom = int (n - d) + int h\<rparr>
              = \<lparr>origin = \<lparr>X = Left ?v, Y = int (n - d)\<rparr>, dimensions = dimensions ?v\<rparr>"
    using v by (simp add: FromExclusive_def RightExclusive_def Width_def Height_def)
  have "EraseInDisplay t EraseAll
    = (True,
       SetCursorPosition
         (NotifyScrollEvent
            (t\<lparr>buffer := (IncrementCircularBuffer ^^ d) (buffer t),
               mutableViewport :=
                 \<lparr>origin = \<lparr>X = Left ?v, Y = int (n - d)\<rparr>, dimensions = dimensions ?v\<rparr>\<rparr>))
         (X (ConvertToOrigin ?v (position (cursor (buffer t)))))
         (Y (ConvertToOrigin ?v (position (cursor (buffer t))))))"
    unfolding EraseInDisplay_def Let_def
    by (simp add: nz' ny v GetSize_bounds dl circle nb vp del: of_nat_add of_nat_Suc of_nat_diff)
  then show ?thesis
    by (simp only: n_def d_def)
qed

text \<open>Claim C6, as stated, fails when something non-blank lies below the viewport:
  the first call moves the viewport from rows 0-1 to rows 1-2, where the second call
  finds the \<open>z\<close> of row 2 and moves the viewport again, to rows 2-3.\<close>

theorem EraseInDisplay_All_twice_moves:
  "mutableViewport (snd (EraseInDisplay
      (exampleTerminal ['' a'', ''  '', ''z '', ''  ''] 0 0 0 0 2 2) EraseAll))
     = \<lparr>origin = \<lparr>X = 0, Y = 1\<rparr>, dimensions = \<lparr>X = 2, Y = 2\<rparr>\<rparr>
   \<and> mutableViewport (snd (EraseInDisplay (snd (EraseInDisplay
      (exampleTerminal ['' a'', ''  '', ''z '', ''  ''] 0 0 0 0 2 2) EraseAll)) EraseAll))
     = \<lparr>origin = \<lparr>X = 0, Y = 2\<rparr>, dimensions = \<lparr>X = 2, Y = 2\<rparr>\<rparr>
   \<and> wfTerminal (exampleTerminal ['' a'', ''  '', ''z '', ''  ''] 0 0 0 0 2 2)"
  by (simp add: wf_eval_defs BottomExclusive_def
      EraseInDisplay_def GetLastNonSpaceCharacter_def rowSegment_def
      circleLoop.simps IncrementCircularBuffer_def Reset_def FromExclusive_def
      SetCursorPosition_def NotifyScrollEvent_def Clamp_def ConvertToOrigin_def Origin_def
      BottomInclusive_def eval_defs)

text \<open>Claim C6, amended.  On a well-formed terminal with nothing non-blank below the
  viewport (in the viewport's columns), EraseInDisplay(All) is idempotent: both calls
  return true, and the second call, made right after the first, returns the terminal
  unchanged; it moves no viewport, rotates no buffer, changes no cell and fires no
  notification.\<close>

theorem EraseInDisplay_All_idempotent:
  assumes "wfTerminal t" "blankBelowViewport t"
  shows "fst (EraseInDisplay t EraseAll)
    \<and> EraseInDisplay (snd (EraseInDisplay t EraseAll)) EraseAll
        = (True, snd (EraseInDisplay t EraseAll))"
proof -
  let ?v = "mutableViewport t"
  let ?st = "storage (buffer t)"
  let ?l = "nat (Left ?v)" and ?w = "nat (Width ?v)"
  let ?P = "\<lambda>r. blankSegment r ?l ?w"
  from assms(1) obtain tp h where
    v: "Top ?v = int tp" "Height ?v = int h" "0 < h"
    "tp + h \<le> length ?st" "length ?st \<le> 32767" "0 \<le> Left ?v" "Left ?v \<le> 32767"
    by (rule wfTerminal_viewport)
  let ?rows = "take h (drop tp ?st)"
  have below: "list_all ?P (drop (tp + h) ?st)"
    using assms(2) v by (simp add: blankBelowViewport_def BottomExclusive_def flip: of_nat_add)
  show ?thesis
  proof (cases "X (GetLastNonSpaceCharacter (buffer t) ?v) = 0
                \<and> Y (GetLastNonSpaceCharacter (buffer t) ?v) = 0")
    case True
    then have "EraseInDisplay t EraseAll = (True, t)"
      by (simp add: EraseAll_nothing)
    then show ?thesis by simp
  next
    case False
    then obtain x y where scan: "scanRowsBack (rev ?rows) ?l ?w = Some (x, y)"
      by (cases "scanRowsBack (rev ?rows) ?l ?w") (auto simp: GetLastNonSpaceCharacter_def v)
    have nz: "\<not> (Left ?v + int x = 0 \<and> int tp + int y = 0)"
      using False by (simp add: GetLastNonSpaceCharacter_def v scan)
    define n where "n = tp + y + 1"
    define d where "d = n + h - length ?st"
    let ?t1 = "snd (EraseInDisplay t EraseAll)"
    let ?R = "map (\<lambda>r. Reset r (currentAttributes (buffer t))) (take d ?st)"
    have y: "y < h" and above: "list_all ?P (drop (Suc y) ?rows)"
      using scanRowsBack_rev_Some [OF scan] by simp_all
    have n: "d \<le> length ?st" "n - d + d = n" "n - d \<le> length ?st - d"
      using v y by (simp_all add: n_def d_def)
    have res: "EraseInDisplay t EraseAll
      = (True,
         SetCursorPosition
           (NotifyScrollEvent
              (t\<lparr>buffer := (IncrementCircularBuffer ^^ d) (buffer t),
                 mutableViewport := \<lparr>origin = \<lparr>X = Left ?v, Y = int (n - d)\<rparr>,
                                      dimensions = dimensions ?v\<rparr>\<rparr>))
           (X (ConvertToOrigin ?v (position (cursor (buffer t)))))
           (Y (ConvertToOrigin ?v (position (cursor (buffer t))))))"
      using EraseAll_moves [OF v(1-5) scan nz] by (simp only: n_def d_def)
    have st1: "storage (buffer ?t1) = drop d ?st @ ?R"
      using Increment_iterate [OF n(1)]
      by (simp add: res SetCursorPosition_def NotifyScrollEvent_def Let_def)
    have vp1: "mutableViewport ?t1
                 = \<lparr>origin = \<lparr>X = Left ?v, Y = int (n - d)\<rparr>, dimensions = dimensions ?v\<rparr>"
      by (simp add: res SetCursorPosition_def NotifyScrollEvent_def Let_def)
    have geo: "nat (Left (mutableViewport ?t1)) = ?l" "nat (Width (mutableViewport ?t1)) = ?w"
      "nat (Height (mutableViewport ?t1)) = h" "nat (Top (mutableViewport ?t1)) = n - d"
      using v by (simp_all add: vp1 Left_def Width_def Height_def Top_def)
    have split: "drop n ?st = drop (Suc y) ?rows @ drop (tp + h) ?st"
    proof -
      have lenA: "length ?rows = h"
        using v by simp
      have "drop (Suc y) (drop tp ?st) = drop (Suc y) (?rows @ drop h (drop tp ?st))"
        by (simp only: append_take_drop_id)
      also have "\<dots> = drop (Suc y) ?rows @ drop (Suc y - length ?rows) (drop h (drop tp ?st))"
        by (simp only: drop_append)
      also have "\<dots> = drop (Suc y) ?rows @ drop h (drop tp ?st)"
      proof -
        have "Suc y - length ?rows = 0"
          using y lenA by simp
        then show ?thesis
          by (simp only: drop_0)
      qed
      finally show ?thesis
        by (simp add: ac_simps n_def)
    qed
    have tail: "list_all ?P (drop n ?st)"
      by (simp only: split list_all_append above below simp_thms)
    have "drop (n - d) (drop d ?st @ ?R)
            = drop (n - d) (drop d ?st) @ drop (n - d - length (drop d ?st)) ?R"
      by (simp only: drop_append)
    also have "drop (n - d) (drop d ?st) = drop n ?st"
      by (simp only: drop_drop n(2))
    also have "n - d - length (drop d ?st) = 0"
      using n(3) by simp
    finally have dr: "drop (n - d) (storage (buffer ?t1)) = drop n ?st @ ?R"
      by (simp only: st1 drop_0)
    have "list_all ?P ?R"
      by (simp add: list_all_iff blankSegment_Reset)
    then have "list_all ?P (drop (n - d) (storage (buffer ?t1)))"
      by (simp only: dr list_all_append tail simp_thms)
    then have "list_all ?P (take h (drop (n - d) (storage (buffer ?t1))))"
      by (auto simp: list_all_iff dest: in_set_takeD)
    then have "scanRowsBack (rev (take h (drop (n - d) (storage (buffer ?t1))))) ?l ?w = None"
      by (simp add: scanRowsBack_None list_all_iff)
    then have "GetLastNonSpaceCharacter (buffer ?t1) (mutableViewport ?t1) = \<lparr>X = 0, Y = 0\<rparr>"
      by (simp add: GetLastNonSpaceCharacter_def geo)
    then have "EraseInDisplay ?t1 EraseAll = (True, ?t1)"
      by (simp add: EraseAll_nothing)
    then show ?thesis
      by (simp add: res)
  qed
qed

theorem EraseInDisplay_All_idempotent_witness:
  "fst (EraseInDisplay (exampleTerminal [''ab'', ''cd'', ''  '', ''ef'', '' g''] 1 3 0 3 2 2) EraseAll)
   \<and> EraseInDisplay
        (snd (EraseInDisplay (exampleTerminal [''ab'', ''cd'', ''  '', ''ef'', '' g''] 1 3 0 3 2 2)
                EraseAll)) EraseAll
      = (True, snd (EraseInDisplay
                (exampleTerminal [''ab'', ''cd'', ''  '', ''ef'', '' g''] 1 3 0 3 2 2) EraseAll))
   \<and> mutableViewport
        (snd (EraseInDisplay (exampleTerminal [''ab'', ''cd'', ''  '', ''ef'', '' g''] 1 3 0 3 2 2)
                EraseAll))
      = \<lparr>origin = \<lparr>X = 0, Y = 3\<rparr>, dimensions = \<lparr>X = 2, Y = 2\<rparr>\<rparr>"
proof -
  let ?t = "exampleTerminal [''ab'', ''cd'', ''  '', ''ef'', '' g''] 1 3 0 3 2 2"
  have wf: "wfTerminal ?t"
    by (simp add: wf_eval_defs eval_defs BottomExclusive_def)
  have bl: "blankBelowViewport ?t"
    by (simp add: blankBelowViewport_def BottomExclusive_def eval_defs)
  have vp: "mutableViewport (snd (EraseInDisplay ?t EraseAll))
              = \<lparr>origin = \<lparr>X = 0, Y = 3\<rparr>, dimensions = \<lparr>X = 2, Y = 2\<rparr>\<rparr>"
    by (simp add: EraseInDisplay_def GetLastNonSpaceCharacter_def rowSegment_def
        circleLoop.simps IncrementCircularBuffer_def Reset_def FromExclusive_def
        SetCursorPosition_def NotifyScrollEvent_def Clamp_def ConvertToOrigin_def Origin_def
        BottomInclusive_def eval_defs)
  show ?thesis
    using EraseInDisplay_All_idempotent [OF wf bl] vp by simp
qed

end
